theory Spec2Isabelle
  imports Main "HOL-Library.Sublist"
begin

section \<open>The project scaffolder \<open>scripts/create_project.py\<close>\<close>

text \<open>
  The script builds a fixed directory tree with empty files below a hardcoded Windows
  path (\<open>create_project_structure\<close>), checks that every entry exists
  (\<open>verify_structure\<close>) and turns the outcome into the exit code of the process.
  Everything it does goes through \<open>pathlib\<close> and \<open>print\<close>; the model therefore
  consists of a small model of the \<open>pathlib\<close> calls the script makes, over an explicit
  filesystem, and of the script's functions on top of it, written with explicit state
  passing and with exceptions as values.
\<close>

subsection \<open>Paths (\<open>pathlib.Path\<close>, Windows flavour)\<close>

text \<open>
  A path is its anchor (drive and root, such as \<open>C:\<close> followed by a backslash, for an
  absolute path; empty for a relative one) and the list of its name components. The
  hardcoded literals are Windows paths, so \<open>Path\<close> parses the way \<open>WindowsPath\<close> does:
  backslash and \<open>/\<close> both separate components, empty components and \<open>.\<close> are dropped.
  Of the anchored forms only the drive letter followed by a separator, the one form the
  script writes, is recognised; UNC paths, drive-relative paths and the
  case-insensitivity of Windows names are not modelled.
\<close>

datatype path = PurePath (anchor: string) (names: "string list")

definition bslash :: char where
  "bslash = CHR 0x5C"

definition is_sep :: "char \<Rightarrow> bool" where
  "is_sep c \<longleftrightarrow> c = bslash \<or> c = CHR ''/''"

definition keep_part :: "string \<Rightarrow> string list" where
  "keep_part cur = (if cur = [] \<or> cur = ''.'' then [] else [cur])"

fun split_parts :: "string \<Rightarrow> string \<Rightarrow> string list" where
  "split_parts cur [] = keep_part cur"
| "split_parts cur (c # cs) =
     (if is_sep c then keep_part cur @ split_parts [] cs
      else split_parts (cur @ [c]) cs)"

definition Path :: "string \<Rightarrow> path" where
  "Path s =
     (case s of
        d # c # r # rest \<Rightarrow>
          if c = CHR '':'' \<and> is_sep r then PurePath [d, c, bslash] (split_parts [] rest)
          else PurePath [] (split_parts [] s)
      | _ \<Rightarrow> PurePath [] (split_parts [] s))"

text \<open>\<open>p / s\<close>: an anchored right-hand side replaces the left one, a relative one is
  appended.\<close>

definition joinpath :: "path \<Rightarrow> string \<Rightarrow> path" where
  "joinpath p s =
     (let q = Path s
      in if anchor q = [] then PurePath (anchor p) (names p @ names q) else q)"

text \<open>\<open>p.parent\<close>: the anchor (and the empty relative path) is its own parent.\<close>

definition parent :: "path \<Rightarrow> path" where
  "parent p = PurePath (anchor p) (butlast (names p))"

subsection \<open>The filesystem and the process state\<close>

text \<open>
  A filesystem maps a path to the entry found there: a directory (with a flag saying
  whether this process may create entries in it) or a regular file with its contents.
  Symbolic links, timestamps and other metadata are not modelled.
\<close>

datatype node = Dir bool | File string

type_synonym filesystem = "path \<Rightarrow> node option"

text \<open>
  The exceptions. The first three are those the modelled filesystem calls raise, each
  carrying the path of the failing call; all three are subclasses of \<open>OSError\<close>.
  \<open>StdoutError\<close> stands for whatever a failing write to the standard output raises
  (\<open>BrokenPipeError\<close>, \<open>UnicodeEncodeError\<close>, \<open>ValueError\<close> on a closed stream): an
  \<open>Exception\<close> that is neither a \<open>PermissionError\<close> nor a \<open>FileExistsError\<close>. No
  filesystem call raises it.
\<close>

datatype exn = PermissionError path | FileExistsError path | FileNotFoundError path
  | StdoutError

datatype outcome = Ok | Raised exn

definition path_exists :: "filesystem \<Rightarrow> path \<Rightarrow> bool" where
  "path_exists fs p \<longleftrightarrow> fs p \<noteq> None"

definition is_dir :: "filesystem \<Rightarrow> path \<Rightarrow> bool" where
  "is_dir fs p = (case fs p of Some (Dir _) \<Rightarrow> True | _ \<Rightarrow> False)"

text \<open>
  \<open>os.mkdir\<close>: fails when the path exists, when its parent is missing or is not a
  directory (Windows reports both as "path not found"), and when the parent is not
  writable. A missing drive shows as a missing anchor, which is its own parent.
\<close>

definition os_mkdir :: "path \<Rightarrow> filesystem \<Rightarrow> outcome \<times> filesystem" where
  "os_mkdir p fs =
     (case fs p of
        Some _ \<Rightarrow> (Raised (FileExistsError p), fs)
      | None \<Rightarrow>
          (case fs (parent p) of
             Some (Dir True) \<Rightarrow> (Ok, fs(p \<mapsto> Dir True))
           | Some (Dir False) \<Rightarrow> (Raised (PermissionError p), fs)
           | _ \<Rightarrow> (Raised (FileNotFoundError p), fs)))"

text \<open>
  \<open>Path.mkdir(parents, exist_ok)\<close>, as in \<open>pathlib\<close>:
  \<^verbatim>\<open>
    try:
        os.mkdir(self, mode)
    except FileNotFoundError:
        if not parents or self.parent == self:
            raise
        self.parent.mkdir(parents=True, exist_ok=True)
        self.mkdir(mode, parents=False, exist_ok=exist_ok)
    except OSError:
        if not exist_ok or not self.is_dir():
            raise
  \<close>
\<close>

function mkdir :: "bool \<Rightarrow> bool \<Rightarrow> path \<Rightarrow> filesystem \<Rightarrow> outcome \<times> filesystem" where
  "mkdir parents exist_ok p fs =
     (case os_mkdir p fs of
        (Ok, fs') \<Rightarrow> (Ok, fs')
      | (Raised (FileNotFoundError q), fs') \<Rightarrow>
          if \<not> parents \<or> parent p = p then (Raised (FileNotFoundError q), fs')
          else (case mkdir True True (parent p) fs' of
                  (Ok, fs'') \<Rightarrow> mkdir False exist_ok p fs''
                | (Raised e, fs'') \<Rightarrow> (Raised e, fs''))
      | (Raised e, fs') \<Rightarrow>
          if \<not> exist_ok \<or> \<not> is_dir fs' p then (Raised e, fs') else (Ok, fs'))"
  by pat_completeness auto
termination
proof (relation "measure (\<lambda>(parents, exist_ok, p, fs). 2 * length (names p) + (if parents then 1 else 0))")
  show "wf (measure (\<lambda>(parents, exist_ok, p, fs). 2 * length (names p) + (if parents then 1 else 0)))"
    by simp
next
  fix parents exist_ok :: bool and p :: path and fs :: filesystem and x fs' e q
  assume a: "\<not> (\<not> parents \<or> parent p = p)"
  then have "names p \<noteq> []"
    by (cases p) (auto simp: parent_def)
  then have "length (butlast (names p)) < length (names p)"
    by (cases "names p") simp_all
  with a show "((True, True, parent p, fs'), (parents, exist_ok, p, fs))
      \<in> measure (\<lambda>(parents, exist_ok, p, fs). 2 * length (names p) + (if parents then 1 else 0))"
    by (simp add: parent_def)
next
  fix parents exist_ok :: bool and p :: path and fs :: filesystem and fs''
  assume "\<not> (\<not> parents \<or> parent p = p)"
  then show "((False, exist_ok, p, fs''), (parents, exist_ok, p, fs))
      \<in> measure (\<lambda>(parents, exist_ok, p, fs). 2 * length (names p) + (if parents then 1 else 0))"
    by simp
qed

declare mkdir.simps [simp del]

text \<open>
  \<open>Path.touch()\<close> with its default \<open>exist_ok=True\<close>: on an existing entry \<open>os.utime\<close>
  succeeds and nothing modelled changes; otherwise the file is opened with
  \<open>O_CREAT | O_WRONLY\<close>, which creates it empty.
\<close>

definition touch :: "path \<Rightarrow> filesystem \<Rightarrow> outcome \<times> filesystem" where
  "touch p fs =
     (case fs p of
        Some _ \<Rightarrow> (Ok, fs)
      | None \<Rightarrow>
          (case fs (parent p) of
             Some (Dir True) \<Rightarrow> (Ok, fs(p \<mapsto> File []))
           | Some (Dir False) \<Rightarrow> (Raised (PermissionError p), fs)
           | _ \<Rightarrow> (Raised (FileNotFoundError p), fs)))"


text \<open>
  What the script prints, one constructor per line template (a block of fixed lines is
  one constructor). The tick line \<open>"  [tick] {s}"\<close> is printed by three places: for a
  subdirectory (with \<open>s\<close> the name followed by \<open>/\<close>), for a file that was just created, and
  by \<open>verify_structure\<close> for an entry that exists; the text is the same, so the constructor
  is the same.
\<close>

datatype line =
    Banner                  \<comment> \<open>line 145\<close>
  | Rule                    \<comment> \<open>line 146\<close>
  | CreatingMain path       \<comment> \<open>line 40\<close>
  | DirsHeading             \<comment> \<open>line 44\<close>
  | FilesHeading            \<comment> \<open>line 51\<close>
  | Tick string             \<comment> \<open>lines 48, 61 and 137\<close>
  | AlreadyPresent string   \<comment> \<open>line 63, "(bereits vorhanden)"\<close>
  | StructureCreated        \<comment> \<open>line 66\<close>
  | ProjectPathLine path    \<comment> \<open>line 67\<close>
  | TreeOverview            \<comment> \<open>lines 70 to 84\<close>
  | NextSteps path          \<comment> \<open>lines 87 to 96\<close>
  | NoPermission path       \<comment> \<open>line 101\<close>
  | RunAsAdmin              \<comment> \<open>line 102\<close>
  | ErrorLine exn           \<comment> \<open>line 106\<close>
  | UnexpectedError exn     \<comment> \<open>line 110\<close>
  | VerifyHeading           \<comment> \<open>line 115\<close>
  | Missing string          \<comment> \<open>line 139, "FEHLT!"\<close>
  | SetupComplete           \<comment> \<open>line 153\<close>
  | SetupFailed             \<comment> \<open>line 155\<close>

text \<open>
  The state of a run: the filesystem, the lines printed so far, and the paths on which
  \<open>touch()\<close> has been called so far. The last field is a record of the calls made, kept
  so that "touch is not called on this path" can be stated; no function reads it.
\<close>

record world =
  fsys :: filesystem
  stdout :: "line list"
  touch_calls :: "path list"

text \<open>
  \<open>print\<close> appends a line. Here writing to the standard output never fails; the
  script with writes that can fail is modelled separately, further down.
\<close>

definition print :: "line \<Rightarrow> world \<Rightarrow> world" where
  "print l w = w\<lparr>stdout := stdout w @ [l]\<rparr>"

definition path_mkdir :: "bool \<Rightarrow> bool \<Rightarrow> path \<Rightarrow> world \<Rightarrow> outcome \<times> world" where
  "path_mkdir parents exist_ok p w =
     (case mkdir parents exist_ok p (fsys w) of (r, fs') \<Rightarrow> (r, w\<lparr>fsys := fs'\<rparr>))"

definition path_touch :: "path \<Rightarrow> world \<Rightarrow> outcome \<times> world" where
  "path_touch p w =
     (case touch p (fsys w) of
        (r, fs') \<Rightarrow> (r, w\<lparr>fsys := fs', touch_calls := touch_calls w @ [p]\<rparr>))"

subsection \<open>\<open>create_project_structure\<close>\<close>

definition base_path :: path where
  "base_path = Path (''C:'' @ bslash # ''Users'' @ bslash # ''damja'' @ bslash #
     ''WebstormProjects'' @ bslash # ''Shirtful'' @ bslash # ''Wareneingang'')"

definition project_path :: path where
  "project_path = joinpath base_path ''rfid-qr-app''"

definition directories :: "string list" where
  "directories = [''renderer'', ''rfid'', ''db'']"

definition files :: "string list" where
  "files = [''main.js'', ''preload.js'', ''renderer/index.html'', ''renderer/app.js'',
     ''renderer/styles.css'', ''rfid/rfid-listener.js'', ''db/db-client.js'', ''.env'',
     ''package.json'', ''electron-builder.yml'']"

text \<open>The loop of lines 45 to 48, over the directories still to be made.\<close>

fun create_dirs :: "path \<Rightarrow> string list \<Rightarrow> world \<Rightarrow> outcome \<times> world" where
  "create_dirs root [] w = (Ok, w)"
| "create_dirs root (directory # rest) w =
     (case path_mkdir False True (joinpath root directory) w of
        (Raised e, w') \<Rightarrow> (Raised e, w')
      | (Ok, w') \<Rightarrow> create_dirs root rest (print (Tick (directory @ ''/'')) w'))"

text \<open>The body of the loop of lines 52 to 63, for one file.\<close>

definition create_file :: "path \<Rightarrow> string \<Rightarrow> world \<Rightarrow> outcome \<times> world" where
  "create_file root file_path w =
     (let full_file_path = joinpath root file_path
      in case path_mkdir True True (parent full_file_path) w of
           (Raised e, w') \<Rightarrow> (Raised e, w')
         | (Ok, w') \<Rightarrow>
             if \<not> path_exists (fsys w') full_file_path
             then (case path_touch full_file_path w' of
                     (Raised e, w'') \<Rightarrow> (Raised e, w'')
                   | (Ok, w'') \<Rightarrow> (Ok, print (Tick file_path) w''))
             else (Ok, print (AlreadyPresent file_path) w'))"

fun create_files :: "path \<Rightarrow> string list \<Rightarrow> world \<Rightarrow> outcome \<times> world" where
  "create_files root [] w = (Ok, w)"
| "create_files root (file_path # rest) w =
     (case create_file root file_path w of
        (Raised e, w') \<Rightarrow> (Raised e, w')
      | (Ok, w') \<Rightarrow> create_files root rest w')"

text \<open>Lines 66 to 96: the closing messages of a run that went through.\<close>

definition print_summary :: "world \<Rightarrow> world" where
  "print_summary w =
     print (NextSteps project_path) (print TreeOverview
       (print (ProjectPathLine project_path) (print StructureCreated w)))"

text \<open>
  The body of the \<open>try\<close> statement, lines 39 to 98. An exception ends it at once; the
  state it returns with the exception is the state at the raise.
\<close>

definition try_block :: "world \<Rightarrow> outcome \<times> world" where
  "try_block w =
     (case path_mkdir True True project_path (print (CreatingMain project_path) w) of
        (Raised e, w1) \<Rightarrow> (Raised e, w1)
      | (Ok, w1) \<Rightarrow>
          (case create_dirs project_path directories (print DirsHeading w1) of
             (Raised e, w2) \<Rightarrow> (Raised e, w2)
           | (Ok, w2) \<Rightarrow>
               (case create_files project_path files (print FilesHeading w2) of
                  (Raised e, w3) \<Rightarrow> (Raised e, w3)
                | (Ok, w3) \<Rightarrow> (Ok, print_summary w3))))"

text \<open>
  The \<open>except\<close> clauses of lines 100 to 111, tried in order: \<open>PermissionError\<close>,
  \<open>FileExistsError\<close>, then \<open>Exception\<close> for whatever is left.
\<close>

definition except_clauses :: "exn \<Rightarrow> world \<Rightarrow> bool \<times> world" where
  "except_clauses e w =
     (case e of
        PermissionError p \<Rightarrow> (False, print RunAsAdmin (print (NoPermission base_path) w))
      | FileExistsError p \<Rightarrow> (False, print (ErrorLine e) w)
      | _ \<Rightarrow> (False, print (UnexpectedError e) w))"

definition create_project_structure :: "world \<Rightarrow> bool \<times> world" where
  "create_project_structure w =
     (case try_block w of
        (Ok, w') \<Rightarrow> (True, w')
      | (Raised e, w') \<Rightarrow> except_clauses e w')"

subsection \<open>\<open>verify_structure\<close>\<close>

definition expected_items :: "string list" where
  "expected_items = [''main.js'', ''preload.js'', ''renderer'', ''renderer/index.html'',
     ''renderer/app.js'', ''renderer/styles.css'', ''rfid'', ''rfid/rfid-listener.js'', ''db'',
     ''db/db-client.js'', ''.env'', ''package.json'', ''electron-builder.yml'']"

text \<open>The loop of lines 134 to 140; \<open>all_good\<close> is the flag it carries.\<close>

fun verify_items :: "path \<Rightarrow> string list \<Rightarrow> bool \<Rightarrow> world \<Rightarrow> bool \<times> world" where
  "verify_items root [] all_good w = (all_good, w)"
| "verify_items root (item # rest) all_good w =
     (if path_exists (fsys w) (joinpath root item)
      then verify_items root rest all_good (print (Tick item) w)
      else verify_items root rest False (print (Missing item) w))"

definition verify_structure :: "path \<Rightarrow> world \<Rightarrow> bool \<times> world" where
  "verify_structure root w = verify_items root expected_items True (print VerifyHeading w)"

subsection \<open>The entry point\<close>

text \<open>The path written out at line 151.\<close>

definition main_project_path :: path where
  "main_project_path = Path (''C:'' @ bslash # ''Users'' @ bslash # ''damja'' @ bslash #
     ''WebstormProjects'' @ bslash # ''Shirtful'' @ bslash # ''Wareneingang'' @ bslash #
     ''rfid-qr-app'')"

text \<open>
  Lines 150 to 156, the branch on the result of \<open>create_project_structure\<close>. The result
  is the exit code of the process with the final state: falling off the end of the
  script is exit code 0, \<open>sys.exit(1)\<close> is exit code 1.
\<close>

definition after_create :: "bool \<Rightarrow> world \<Rightarrow> int \<times> world" where
  "after_create success w =
     (if success
      then (case verify_structure main_project_path w of
              (all_good, w') \<Rightarrow> (0, print SetupComplete w'))
      else (1, print SetupFailed w))"

text \<open>Lines 145 to 156.\<close>

definition main :: "world \<Rightarrow> int \<times> world" where
  "main w =
     (case create_project_structure (print Rule (print Banner w)) of
        (success, w') \<Rightarrow> after_create success w')"

subsection \<open>The same functions when a write to the standard output can fail\<close>













subsection \<open>Notions used in the statements\<close>

text \<open>The lines printed, and the \<open>touch()\<close> calls made, between two states of a run.\<close>

definition new_lines :: "world \<Rightarrow> world \<Rightarrow> line list" where
  "new_lines w w' = drop (length (stdout w)) (stdout w')"

definition new_touches :: "world \<Rightarrow> world \<Rightarrow> path list" where
  "new_touches w w' = drop (length (touch_calls w)) (touch_calls w')"

text \<open>The path \<open>ns\<close> below \<open>root\<close>.\<close>

definition below :: "path \<Rightarrow> string list \<Rightarrow> path" where
  "below root ns = PurePath (anchor root) (names root @ ns)"

text \<open>
  The directories on the way from the drive to the project directory: the first \<open>k\<close>
  components of the project path (the drive's root directory for \<open>k = 0\<close>, the project
  directory itself from \<open>k = 6\<close> on).
\<close>

definition project_ancestor :: "nat \<Rightarrow> path" where
  "project_ancestor k = PurePath (anchor project_path) (take k (names project_path))"

text \<open>
  A map from paths to entries is the state of a filesystem only if every entry other
  than the root directory of a drive lies in a directory.
\<close>

definition well_formed :: "filesystem \<Rightarrow> bool" where
  "well_formed fs \<longleftrightarrow> (\<forall>p. fs p \<noteq> None \<and> names p \<noteq> [] \<longrightarrow> is_dir fs (parent p))"

text \<open>
  Sequencing of two steps where an exception of the first skips the second, the shape
  of every pair of consecutive statements inside the \<open>try\<close> block.
\<close>

definition and_then ::
  "(world \<Rightarrow> outcome \<times> world) \<Rightarrow> (world \<Rightarrow> outcome \<times> world) \<Rightarrow> world \<Rightarrow> outcome \<times> world" where
  "and_then m1 m2 w = (case m1 w of (Ok, w') \<Rightarrow> m2 w' | (Raised e, w') \<Rightarrow> (Raised e, w'))"

text \<open>
  A step is \<open>steady\<close> when it only adds entries to the filesystem and when, run again
  on any filesystem that extends the one it left (the very one it left, if it raised),
  it ends the same way and changes nothing.
\<close>

definition steady :: "(world \<Rightarrow> outcome \<times> world) \<Rightarrow> bool" where
  "steady m \<longleftrightarrow>
     (\<forall>w r w'. m w = (r, w') \<longrightarrow>
        fsys w \<subseteq>\<^sub>m fsys w' \<and>
        (\<forall>v. fsys w' \<subseteq>\<^sub>m fsys v \<and> (r \<noteq> Ok \<longrightarrow> fsys v = fsys w') \<longrightarrow>
           (\<exists>v'. m v = (r, v') \<and> fsys v' = fsys v)))"



subsection \<open>Example filesystems\<close>

text \<open>
  A drive \<open>C:\<close> whose root directory is writable and empty, and a state with that
  filesystem in which nothing has been printed: the inputs of the examples below.
\<close>

definition c_drive :: path where
  "c_drive = PurePath (''C:'' @ [bslash]) []"

definition empty_drive :: filesystem where
  "empty_drive = Map.empty(c_drive \<mapsto> Dir True)"

definition start :: "filesystem \<Rightarrow> world" where
  "start fs = \<lparr>fsys = fs, stdout = [], touch_calls = []\<rparr>"

text \<open>
  Three filesystems on which a run fails: no drive \<open>C:\<close> at all, a drive whose root
  directory is not writable, and a drive on which \<open>Users\<close> is a regular file.
\<close>

definition no_drive :: filesystem where
  "no_drive = Map.empty"

definition locked_drive :: filesystem where
  "locked_drive = Map.empty(c_drive \<mapsto> Dir False)"

definition users_is_file :: filesystem where
  "users_is_file = Map.empty(c_drive \<mapsto> Dir True, below c_drive [''Users''] \<mapsto> File ''x'')"



definition only_main_js :: world where
  "only_main_js = snd (create_file project_path ''main.js'' (start empty_drive))"


text \<open>A drive that holds the project directory, empty, and the directories above it.\<close>

definition chain_only :: filesystem where
  "chain_only = snd (mkdir True True project_path empty_drive)"


text \<open>
  A drive on which only the home directory is writable; it holds a directory
  \<open>Documents\<close> with a file, and nothing of the project path below the home directory.
\<close>

definition home_drive :: filesystem where
  "home_drive = Map.empty
     (c_drive \<mapsto> Dir False,
      below c_drive [''Users''] \<mapsto> Dir False,
      below c_drive [''Users'', ''damja''] \<mapsto> Dir True,
      below c_drive [''Users'', ''damja'', ''Documents''] \<mapsto> Dir True,
      below c_drive [''Users'', ''damja'', ''Documents'', ''notes.txt''] \<mapsto> File ''hello'')"

section \<open>Properties of the modelled calls\<close>


lemma os_mkdir_cases:
  "os_mkdir p fs =
     (if fs p \<noteq> None then (Raised (FileExistsError p), fs)
      else if fs (parent p) = Some (Dir True) then (Ok, fs(p \<mapsto> Dir True))
      else if fs (parent p) = Some (Dir False) then (Raised (PermissionError p), fs)
      else (Raised (FileNotFoundError p), fs))"
  by (auto simp: os_mkdir_def split: option.splits node.splits bool.splits)

lemma mkdir_unfold:
  "mkdir parents exist_ok p fs =
     (if fs p \<noteq> None
      then (if \<not> exist_ok \<or> \<not> is_dir fs p then (Raised (FileExistsError p), fs) else (Ok, fs))
      else if fs (parent p) = Some (Dir True) then (Ok, fs(p \<mapsto> Dir True))
      else if fs (parent p) = Some (Dir False) then (Raised (PermissionError p), fs)
      else if \<not> parents \<or> parent p = p then (Raised (FileNotFoundError p), fs)
      else (case mkdir True True (parent p) fs of
              (Ok, fs'') \<Rightarrow> mkdir False exist_ok p fs''
            | (Raised e, fs'') \<Rightarrow> (Raised e, fs'')))"
  by (subst mkdir.simps) (simp add: os_mkdir_cases is_dir_def)

lemma is_dir_iff: "is_dir fs p \<longleftrightarrow> fs p = Some (Dir True) \<or> fs p = Some (Dir False)"
  by (auto simp: is_dir_def split: option.splits node.splits bool.splits)

lemma not_prefix_parent:
  assumes "parent p \<noteq> p"
  shows "\<not> prefix (names p) (names (parent p))"
proof
  assume pre: "prefix (names p) (names (parent p))"
  from assms have ne: "names p \<noteq> []"
    by (cases p) (auto simp: parent_def)
  then have "length (names (parent p)) < length (names p)"
    by (simp add: parent_def)
  with prefix_length_le[OF pre] show False
    by simp
qed

lemma mkdir_spec:
  "mkdir a b p fs = (r, fs') \<Longrightarrow>
     (r \<noteq> Ok \<longrightarrow> fs' = fs) \<and> (r = Ok \<longrightarrow> is_dir fs' p) \<and>
     (\<forall>q. fs' q \<noteq> fs q \<longrightarrow>
        fs q = None \<and> fs' q = Some (Dir True) \<and> anchor q = anchor p \<and> prefix (names q) (names p))"
proof (induction a b p fs arbitrary: r fs' rule: mkdir.induct)
  case (1 parents exist_ok p fs)
  note res = "1.prems"
  consider (direct) "fs p \<noteq> None \<or> fs (parent p) = Some (Dir True) \<or> fs (parent p) = Some (Dir False)
      \<or> \<not> parents \<or> parent p = p"
    | (rec) "fs p = None" "fs (parent p) \<noteq> Some (Dir True)" "fs (parent p) \<noteq> Some (Dir False)"
        "parents" "parent p \<noteq> p"
    by blast
  then show ?case
  proof cases
    case direct
    with res show ?thesis
      by (subst (asm) mkdir_unfold) (auto simp: is_dir_def split: if_splits)
  next
    case rec
    have om: "(Raised (FileNotFoundError p), fs) = os_mkdir p fs"
      using rec by (simp add: os_mkdir_cases)
    obtain r1 fs1 where m1: "mkdir True True (parent p) fs = (r1, fs1)"
      by fastforce
    have cond: "\<not> (\<not> parents \<or> parent p = p)"
      using rec by simp
    from "1.IH"(1)[OF om refl refl cond m1]
    have s1: "r1 \<noteq> Ok \<longrightarrow> fs1 = fs" "r1 = Ok \<longrightarrow> is_dir fs1 (parent p)"
      and ch1: "\<And>q. fs1 q \<noteq> fs q \<Longrightarrow> fs q = None \<and> fs1 q = Some (Dir True)
          \<and> anchor q = anchor (parent p) \<and> prefix (names q) (names (parent p))"
      by blast+
    from res rec m1 have res': "(r, fs') =
        (case r1 of Ok \<Rightarrow> mkdir False exist_ok p fs1 | Raised e \<Rightarrow> (Raised e, fs1))"
      by (subst (asm) mkdir_unfold) (simp split: outcome.splits)
    show ?thesis
    proof (cases r1)
      case (Raised e)
      with res' s1 show ?thesis by simp
    next
      case Ok
      with s1 have d1: "is_dir fs1 (parent p)" by simp
      have "fs1 (parent p) \<noteq> fs (parent p)"
        using d1 rec(2,3) by (auto simp: is_dir_iff)
      from ch1[OF this] have par: "fs1 (parent p) = Some (Dir True)" by simp
      have nop: "fs1 p = None"
      proof (rule ccontr)
        assume "fs1 p \<noteq> None"
        with rec(1) have "fs1 p \<noteq> fs p" by simp
        from ch1[OF this] have "prefix (names p) (names (parent p))" by simp
        with not_prefix_parent[OF rec(5)] show False by simp
      qed
      have "mkdir False exist_ok p fs1 = (Ok, fs1(p \<mapsto> Dir True))"
        using nop par by (subst mkdir_unfold) simp
      with res' Ok have r: "r = Ok" and fs': "fs' = fs1(p \<mapsto> Dir True)" by simp_all
      have pp: "prefix (names (parent p)) (names p)" "anchor (parent p) = anchor p"
        by (simp_all add: parent_def prefixeq_butlast)
      have "fs' q \<noteq> fs q \<Longrightarrow> fs q = None \<and> fs' q = Some (Dir True) \<and> anchor q = anchor p
          \<and> prefix (names q) (names p)" for q
      proof (cases "q = p")
        case True
        then show ?thesis using rec(1) fs' by simp
      next
        case False
        assume "fs' q \<noteq> fs q"
        with False fs' have "fs1 q \<noteq> fs q" by simp
        from ch1[OF this] pp False fs' show ?thesis
          by (auto intro: prefix_order.trans)
      qed
      then show ?thesis using r fs' by (simp add: is_dir_def)
    qed
  qed
qed


lemma mkdir_mono: "mkdir a b p fs = (r, fs') \<Longrightarrow> fs \<subseteq>\<^sub>m fs'"
  unfolding map_le_def using mkdir_spec[of a b p fs r fs'] by (metis domIff)

lemma mkdir_Ok_is_dir: "mkdir a b p fs = (Ok, fs') \<Longrightarrow> is_dir fs' p"
  using mkdir_spec[of a b p fs Ok fs'] by simp

lemma mkdir_Raised_unchanged: "mkdir a b p fs = (Raised e, fs') \<Longrightarrow> fs' = fs"
  using mkdir_spec[of a b p fs "Raised e" fs'] by simp

lemma mkdir_existing_dir: "is_dir fs p \<Longrightarrow> mkdir a True p fs = (Ok, fs)"
  by (subst mkdir_unfold) (auto simp: is_dir_iff)

lemma is_dir_mono: "is_dir fs p \<Longrightarrow> fs \<subseteq>\<^sub>m fs' \<Longrightarrow> is_dir fs' p"
  by (auto simp: is_dir_iff map_le_def dom_def)

lemma path_exists_mono: "path_exists fs p \<Longrightarrow> fs \<subseteq>\<^sub>m fs' \<Longrightarrow> path_exists fs' p"
  by (auto simp: path_exists_def map_le_def dom_def)

lemma touch_cases:
  "touch p fs =
     (if fs p \<noteq> None then (Ok, fs)
      else if fs (parent p) = Some (Dir True) then (Ok, fs(p \<mapsto> File []))
      else if fs (parent p) = Some (Dir False) then (Raised (PermissionError p), fs)
      else (Raised (FileNotFoundError p), fs))"
  by (auto simp: touch_def split: option.splits node.splits bool.splits)

lemma touch_mono: "touch p fs = (r, fs') \<Longrightarrow> fs \<subseteq>\<^sub>m fs'"
  by (auto simp: touch_cases map_le_def split: if_splits)

lemma touch_Raised_unchanged: "touch p fs = (Raised e, fs') \<Longrightarrow> fs' = fs"
  by (auto simp: touch_cases split: if_splits)

lemma touch_Ok_exists: "touch p fs = (Ok, fs') \<Longrightarrow> path_exists fs' p"
  by (auto simp: touch_cases path_exists_def split: if_splits)

lemma fsys_print [simp]: "fsys (print l w) = fsys w"
  and stdout_print [simp]: "stdout (print l w) = stdout w @ [l]"
  and touch_calls_print [simp]: "touch_calls (print l w) = touch_calls w"
  by (simp_all add: print_def)

lemma steadyI:
  assumes "\<And>(w::world) r (w'::world). m w = (r, w') \<Longrightarrow> fsys w \<subseteq>\<^sub>m fsys w'"
    and "\<And>(w::world) r (w'::world) (v::world). m w = (r, w') \<Longrightarrow> fsys w' \<subseteq>\<^sub>m fsys v \<Longrightarrow> (r \<noteq> Ok \<Longrightarrow> fsys v = fsys w')
          \<Longrightarrow> \<exists>v'. m v = (r, v') \<and> fsys v' = fsys v"
  shows "steady m"
  unfolding steady_def using assms by blast

lemma steady_mono: "steady m \<Longrightarrow> m w = (r, w') \<Longrightarrow> fsys w \<subseteq>\<^sub>m fsys w'"
  unfolding steady_def by blast

lemma steady_again:
  "steady m \<Longrightarrow> m w = (r, w') \<Longrightarrow> fsys w' \<subseteq>\<^sub>m fsys (v::world) \<Longrightarrow> (r \<noteq> Ok \<Longrightarrow> fsys v = fsys w')
     \<Longrightarrow> \<exists>v'. m v = (r, v') \<and> fsys v' = fsys v"
  unfolding steady_def by blast

lemma steady_and_then:
  assumes s1: "steady m1" and s2: "steady m2"
  shows "steady (and_then m1 m2)"
proof (rule steadyI)
  fix w w' :: world and r
  assume run: "and_then m1 m2 w = (r, w')"
  obtain r1 w1 where m1: "m1 w = (r1, w1)" by fastforce
  show "fsys w \<subseteq>\<^sub>m fsys w'"
  proof (cases r1)
    case Ok
    with run m1 have "m2 w1 = (r, w')" by (simp add: and_then_def)
    from steady_mono[OF s1 m1] steady_mono[OF s2 this] show ?thesis
      by (rule map_le_trans)
  next
    case (Raised e)
    with run m1 have "w' = w1" by (simp add: and_then_def)
    with steady_mono[OF s1 m1] show ?thesis by simp
  qed
next
  fix w w' v :: world and r
  assume run: "and_then m1 m2 w = (r, w')" and ext: "fsys w' \<subseteq>\<^sub>m fsys v"
    and same: "r \<noteq> Ok \<Longrightarrow> fsys v = fsys w'"
  obtain r1 w1 where m1: "m1 w = (r1, w1)" by fastforce
  show "\<exists>v'. and_then m1 m2 v = (r, v') \<and> fsys v' = fsys v"
  proof (cases r1)
    case Ok
    with run m1 have m2: "m2 w1 = (r, w')" by (simp add: and_then_def)
    have "fsys w1 \<subseteq>\<^sub>m fsys v"
      using steady_mono[OF s2 m2] ext by (rule map_le_trans)
    from steady_again[OF s1 m1 this] Ok obtain v1 where v1: "m1 v = (Ok, v1)" "fsys v1 = fsys v"
      by auto
    from steady_again[OF s2 m2, of v1] ext same v1 obtain v2 where "m2 v1 = (r, v2)" "fsys v2 = fsys v1"
      by auto
    with v1 show ?thesis by (simp add: and_then_def)
  next
    case (Raised e)
    with run m1 have eq: "w' = w1" "r = Raised e" by (simp_all add: and_then_def)
    from steady_again[OF s1 m1, of v] ext same eq Raised obtain v1 where "m1 v = (Raised e, v1)" "fsys v1 = fsys v"
      by auto
    with eq show ?thesis by (simp add: and_then_def)
  qed
qed

lemma steady_print: "steady (\<lambda>w. (Ok, print l w))"
  by (rule steadyI) auto

lemma steady_after_print:
  assumes "steady m"
  shows "steady (\<lambda>w. m (print l w))"
proof (rule steadyI)
  fix w w' :: world and r
  assume "m (print l w) = (r, w')"
  from steady_mono[OF assms this] show "fsys w \<subseteq>\<^sub>m fsys w'" by simp
next
  fix w w' v :: world and r
  assume "m (print l w) = (r, w')" "fsys w' \<subseteq>\<^sub>m fsys v" "r \<noteq> Ok \<Longrightarrow> fsys v = fsys w'"
  from steady_again[OF assms this(1), of "print l v"] this(2,3)
  show "\<exists>v'. m (print l v) = (r, v') \<and> fsys v' = fsys v" by simp
qed

lemma steady_path_mkdir: "steady (path_mkdir a True p)"
proof (rule steadyI)
  fix w w' :: world and r
  assume "path_mkdir a True p w = (r, w')"
  then show "fsys w \<subseteq>\<^sub>m fsys w'"
    by (auto simp: path_mkdir_def split: prod.splits dest: mkdir_mono)
next
  fix w w' v :: world and r
  assume run: "path_mkdir a True p w = (r, w')" and ext: "fsys w' \<subseteq>\<^sub>m fsys v"
    and same: "r \<noteq> Ok \<Longrightarrow> fsys v = fsys w'"
  from run obtain fs' where m: "mkdir a True p (fsys w) = (r, fs')" and w': "fsys w' = fs'"
    by (auto simp: path_mkdir_def split: prod.splits)
  show "\<exists>v'. path_mkdir a True p v = (r, v') \<and> fsys v' = fsys v"
  proof (cases r)
    case Ok
    with m w' have "is_dir (fsys w') p" by (auto dest: mkdir_Ok_is_dir)
    from is_dir_mono[OF this ext] have "mkdir a True p (fsys v) = (Ok, fsys v)"
      by (rule mkdir_existing_dir)
    with Ok show ?thesis by (simp add: path_mkdir_def)
  next
    case (Raised e)
    with m w' have "fsys w' = fsys w" by (auto dest: mkdir_Raised_unchanged)
    with same Raised have "fsys v = fsys w" by simp
    with m Raised w' \<open>fsys w' = fsys w\<close> show ?thesis by (simp add: path_mkdir_def)
  qed
qed



section \<open>Running the script again\<close>


lemma create_dirs_Cons:
  "create_dirs root (d # rest) =
     and_then (path_mkdir False True (joinpath root d))
       (\<lambda>w. create_dirs root rest (print (Tick (d @ ''/'')) w))"
  by (rule ext) (simp add: and_then_def split: prod.splits outcome.splits)

lemma steady_create_dirs: "steady (create_dirs root ds)"
proof (induction ds)
  case Nil
  have "create_dirs root [] = (\<lambda>w. (Ok, w))" by (rule ext) simp
  then show ?case by (auto intro: steadyI)
next
  case (Cons d ds)
  show ?case
    unfolding create_dirs_Cons
    by (intro steady_and_then steady_path_mkdir steady_after_print Cons.IH)
qed

text \<open>What follows the \<open>mkdir\<close> of the parent in the body of the file loop.\<close>

lemma steady_touch_or_skip:
  "steady (\<lambda>w. if \<not> path_exists (fsys w) p
      then (case path_touch p w of
              (Raised e, w'') \<Rightarrow> (Raised e, w'')
            | (Ok, w'') \<Rightarrow> (Ok, print l1 w''))
      else (Ok, print l2 w))" (is "steady ?m")
proof (rule steadyI)
  fix w w' :: world and r
  assume "?m w = (r, w')"
  then show "fsys w \<subseteq>\<^sub>m fsys w'"
    by (auto simp: path_touch_def split: if_splits prod.splits outcome.splits dest: touch_mono)
next
  fix w w' v :: world and r
  assume run: "?m w = (r, w')" and ext: "fsys w' \<subseteq>\<^sub>m fsys v"
    and same: "r \<noteq> Ok \<Longrightarrow> fsys v = fsys w'"
  show "\<exists>v'. ?m v = (r, v') \<and> fsys v' = fsys v"
  proof (cases r)
    case Ok
    with run have "path_exists (fsys w') p"
      by (auto simp: path_touch_def split: if_splits prod.splits outcome.splits dest: touch_Ok_exists)
    from path_exists_mono[OF this ext] Ok show ?thesis by simp
  next
    case (Raised e)
    with run have ne: "\<not> path_exists (fsys w) p" and t: "touch p (fsys w) = (Raised e, fsys w')"
      by (auto simp: path_touch_def split: if_splits prod.splits outcome.splits)
    from touch_Raised_unchanged[OF t] same Raised have "fsys v = fsys w" "fsys w' = fsys w" by simp_all
    with ne t Raised show ?thesis by (simp add: path_touch_def)
  qed
qed

lemma create_file_and_then:
  "create_file root f =
     and_then (path_mkdir True True (parent (joinpath root f)))
       (\<lambda>w. if \<not> path_exists (fsys w) (joinpath root f)
          then (case path_touch (joinpath root f) w of
                  (Raised e, w'') \<Rightarrow> (Raised e, w'')
                | (Ok, w'') \<Rightarrow> (Ok, print (Tick f) w''))
          else (Ok, print (AlreadyPresent f) w))"
  by (rule ext) (simp add: create_file_def and_then_def Let_def split: prod.splits outcome.splits)

lemma steady_create_file: "steady (create_file root f)"
  unfolding create_file_and_then
  by (intro steady_and_then steady_path_mkdir steady_touch_or_skip)

lemma create_files_Cons:
  "create_files root (f # rest) = and_then (create_file root f) (create_files root rest)"
  by (rule ext) (simp add: and_then_def split: prod.splits outcome.splits)

lemma steady_create_files: "steady (create_files root fs)"
proof (induction fs)
  case Nil
  have "create_files root [] = (\<lambda>w. (Ok, w))" by (rule ext) simp
  then show ?case by (auto intro: steadyI)
next
  case (Cons f fs)
  show ?case
    unfolding create_files_Cons
    by (intro steady_and_then steady_create_file Cons.IH)
qed

lemma try_block_and_then:
  "try_block = (\<lambda>w.
     and_then (path_mkdir True True project_path)
       (\<lambda>w1. and_then (create_dirs project_path directories)
          (\<lambda>w2. and_then (create_files project_path files) (\<lambda>w3. (Ok, print_summary w3))
             (print FilesHeading w2))
          (print DirsHeading w1))
       (print (CreatingMain project_path) w))"
  by (rule ext) (simp add: try_block_def and_then_def split: prod.splits outcome.splits)

lemma fsys_print_summary [simp]: "fsys (print_summary w) = fsys w"
  and touch_calls_print_summary [simp]: "touch_calls (print_summary w) = touch_calls w"
  by (simp_all add: print_summary_def)

lemma steady_summary: "steady (\<lambda>w. (Ok, print_summary w))"
  by (rule steadyI) auto

lemma steady_try_block: "steady try_block"
  unfolding try_block_and_then
  by (intro steady_after_print steady_and_then steady_path_mkdir steady_create_dirs
      steady_create_files steady_summary)

lemma fsys_except_clauses [simp]: "fsys (snd (except_clauses e w)) = fsys w"
  and fst_except_clauses [simp]: "fst (except_clauses e w) = False"
  by (simp_all add: except_clauses_def split: exn.splits)

lemma create_again:
  "fsys (snd (create_project_structure (snd (create_project_structure w)))) =
     fsys (snd (create_project_structure w)) \<and>
   fst (create_project_structure (snd (create_project_structure w))) =
     fst (create_project_structure w)"
proof -
  obtain r w1 where t1: "try_block w = (r, w1)" by fastforce
  define v where "v = snd (create_project_structure w)"
  have fv: "fsys v = fsys w1"
    using t1 by (simp add: v_def create_project_structure_def split: outcome.splits)
  from steady_again[OF steady_try_block t1, of v] fv
  obtain v' where t2: "try_block v = (r, v')" and fv': "fsys v' = fsys v"
    by auto
  from t1 t2 fv' show ?thesis
    unfolding v_def[symmetric]
    by (simp add: v_def create_project_structure_def split: outcome.splits)
qed


section \<open>What the loops print and leave behind\<close>


lemma path_mkdir_fields:
  "path_mkdir a b p w = (r, w') \<Longrightarrow> stdout w' = stdout w \<and> touch_calls w' = touch_calls w"
  by (auto simp: path_mkdir_def split: prod.splits)

lemma path_mkdir_Ok_is_dir: "path_mkdir a b p w = (Ok, w') \<Longrightarrow> is_dir (fsys w') p"
  by (auto simp: path_mkdir_def split: prod.splits dest: mkdir_Ok_is_dir)

lemma path_mkdir_existing_dir: "is_dir (fsys w) p \<Longrightarrow> path_mkdir a True p w = (Ok, w)"
  by (simp add: path_mkdir_def mkdir_existing_dir)

lemma create_dirs_result:
  "create_dirs root ds w = (r, w') \<Longrightarrow>
     \<exists>finished. prefix finished ds \<and> (r = Ok \<longrightarrow> finished = ds) \<and>
       stdout w' = stdout w @ map (\<lambda>d. Tick (d @ ''/'')) finished \<and>
       touch_calls w' = touch_calls w \<and>
       (\<forall>d\<in>set finished. is_dir (fsys w') (joinpath root d))"
proof (induction ds arbitrary: w)
  case Nil
  then show ?case by auto
next
  case (Cons d ds)
  obtain r1 w1 where m: "path_mkdir False True (joinpath root d) w = (r1, w1)" by fastforce
  note f1 = path_mkdir_fields[OF m]
  show ?case
  proof (cases r1)
    case (Raised e)
    with Cons.prems m f1 have "r = Raised e" "stdout w' = stdout w" "touch_calls w' = touch_calls w"
      by auto
    then show ?thesis by (intro exI[of _ "[]"]) simp
  next
    case Ok
    with Cons.prems m have rest: "create_dirs root ds (print (Tick (d @ ''/'')) w1) = (r, w')"
      by simp
    from Cons.IH[OF rest] obtain fin where fin: "prefix fin ds" "r = Ok \<longrightarrow> fin = ds"
      "stdout w' = stdout (print (Tick (d @ ''/'')) w1) @ map (\<lambda>d. Tick (d @ ''/'')) fin"
      "touch_calls w' = touch_calls (print (Tick (d @ ''/'')) w1)"
      "\<forall>d\<in>set fin. is_dir (fsys w') (joinpath root d)"
      by blast
    from m Ok have "is_dir (fsys w1) (joinpath root d)" by (simp add: path_mkdir_Ok_is_dir)
    moreover have "fsys w1 \<subseteq>\<^sub>m fsys w'"
      using steady_mono[OF steady_create_dirs rest] by simp
    ultimately have "is_dir (fsys w') (joinpath root d)" by (rule is_dir_mono)
    with fin f1 show ?thesis
      by (intro exI[of _ "d # fin"]) simp
  qed
qed

lemma create_dirs_present:
  "\<forall>d\<in>set ds. is_dir (fsys w) (joinpath root d) \<Longrightarrow>
     create_dirs root ds w = (Ok, w\<lparr>stdout := stdout w @ map (\<lambda>d. Tick (d @ ''/'')) ds\<rparr>)"
  by (induction ds arbitrary: w) (simp_all add: path_mkdir_existing_dir print_def)

lemma create_file_result:
  assumes "create_file root f w = (r, w')"
  shows "\<exists>ls tc. stdout w' = stdout w @ ls \<and> touch_calls w' = touch_calls w @ tc \<and>
      set ls \<subseteq> {Tick f, AlreadyPresent f} \<and> set tc \<subseteq> {joinpath root f} \<and>
      (path_exists (fsys w) (joinpath root f) \<longrightarrow>
         tc = [] \<and> Tick f \<notin> set ls \<and> (r = Ok \<longrightarrow> ls = [AlreadyPresent f])) \<and>
      (r = Ok \<longrightarrow> path_exists (fsys w') (joinpath root f)
         \<and> is_dir (fsys w') (parent (joinpath root f)))"
proof -
  let ?p = "joinpath root f"
  obtain r1 w1 where m: "path_mkdir True True (parent ?p) w = (r1, w1)" by fastforce
  note f1 = path_mkdir_fields[OF m]
  have mono1: "fsys w \<subseteq>\<^sub>m fsys w1"
    using steady_mono[OF steady_path_mkdir m] .
  show ?thesis
  proof (cases r1)
    case (Raised e)
    with assms m f1 have "r = Raised e" "stdout w' = stdout w" "touch_calls w' = touch_calls w"
      by (auto simp: create_file_def Let_def)
    then show ?thesis by (intro exI[of _ "[]"]) simp
  next
    case Ok
    from m Ok have d1: "is_dir (fsys w1) (parent ?p)" by (simp add: path_mkdir_Ok_is_dir)
    show ?thesis
    proof (cases "path_exists (fsys w1) ?p")
      case True
      with assms m Ok have "r = Ok" "w' = print (AlreadyPresent f) w1"
        by (auto simp: create_file_def Let_def)
      with f1 True d1 show ?thesis
        by (intro exI[of _ "[AlreadyPresent f]"] exI[of _ "[]"]) simp
    next
      case False
      with mono1 have nex: "\<not> path_exists (fsys w) ?p"
        using path_exists_mono by blast
      obtain r2 fs2 where t: "touch ?p (fsys w1) = (r2, fs2)" by fastforce
      show ?thesis
      proof (cases r2)
        case (Raised e)
        with assms m Ok False t f1 have "r = Raised e" "stdout w' = stdout w"
          "touch_calls w' = touch_calls w @ [?p]"
          by (auto simp: create_file_def Let_def path_touch_def)
        with nex show ?thesis
          by (intro exI[of _ "[]"] exI[of _ "[?p]"]) simp
      next
        case Ok2: Ok
        with assms m Ok False t f1 have res: "r = Ok" "stdout w' = stdout w @ [Tick f]"
          "touch_calls w' = touch_calls w @ [?p]" "fsys w' = fs2"
          by (auto simp: create_file_def Let_def path_touch_def)
        from t Ok2 have "path_exists fs2 ?p" by (simp add: touch_Ok_exists)
        moreover from t have "fsys w1 \<subseteq>\<^sub>m fs2" by (rule touch_mono)
        with d1 have "is_dir fs2 (parent ?p)" by (rule is_dir_mono)
        ultimately show ?thesis using res nex
          by (intro exI[of _ "[Tick f]"] exI[of _ "[?p]"]) simp
      qed
    qed
  qed
qed

lemma create_file_present:
  assumes "path_exists (fsys w) (joinpath root f)" "is_dir (fsys w) (parent (joinpath root f))"
  shows "create_file root f w = (Ok, print (AlreadyPresent f) w)"
  using assms by (simp add: create_file_def Let_def path_mkdir_existing_dir)

lemma create_files_present:
  "\<forall>f\<in>set fs. path_exists (fsys w) (joinpath root f) \<and> is_dir (fsys w) (parent (joinpath root f)) \<Longrightarrow>
     create_files root fs w = (Ok, w\<lparr>stdout := stdout w @ map AlreadyPresent fs\<rparr>)"
  by (induction fs arbitrary: w) (simp_all add: create_file_present print_def)

lemma create_files_result:
  "create_files root fs w = (r, w') \<Longrightarrow>
     \<exists>ls tc. stdout w' = stdout w @ ls \<and> touch_calls w' = touch_calls w @ tc \<and>
       (\<forall>f. path_exists (fsys w) (joinpath root f) \<longrightarrow>
          joinpath root f \<notin> set tc \<and> Tick f \<notin> set ls \<and>
          (r = Ok \<longrightarrow> f \<in> set fs \<longrightarrow> AlreadyPresent f \<in> set ls)) \<and>
       (r = Ok \<longrightarrow> (\<forall>f\<in>set fs. path_exists (fsys w') (joinpath root f)
          \<and> is_dir (fsys w') (parent (joinpath root f))))"
proof (induction fs arbitrary: w)
  case Nil
  then show ?case by auto
next
  case (Cons g fs)
  obtain r1 w1 where c: "create_file root g w = (r1, w1)" by fastforce
  from create_file_result[OF c] obtain ls1 tc1 where
    one0: "stdout w1 = stdout w @ ls1 \<and> touch_calls w1 = touch_calls w @ tc1 \<and>
      set ls1 \<subseteq> {Tick g, AlreadyPresent g} \<and> set tc1 \<subseteq> {joinpath root g} \<and>
      (path_exists (fsys w) (joinpath root g) \<longrightarrow>
         tc1 = [] \<and> Tick g \<notin> set ls1 \<and> (r1 = Ok \<longrightarrow> ls1 = [AlreadyPresent g])) \<and>
      (r1 = Ok \<longrightarrow> path_exists (fsys w1) (joinpath root g)
         \<and> is_dir (fsys w1) (parent (joinpath root g)))"
    by (elim exE) (rule that)
  note one = one0[THEN conjunct1] one0[THEN conjunct2, THEN conjunct1]
    one0[THEN conjunct2, THEN conjunct2, THEN conjunct1]
    one0[THEN conjunct2, THEN conjunct2, THEN conjunct2, THEN conjunct1]
    one0[THEN conjunct2, THEN conjunct2, THEN conjunct2, THEN conjunct2, THEN conjunct1]
    one0[THEN conjunct2, THEN conjunct2, THEN conjunct2, THEN conjunct2, THEN conjunct2]
  have mono1: "fsys w \<subseteq>\<^sub>m fsys w1"
    using steady_mono[OF steady_create_file c] .
  have keep1: "joinpath root f \<notin> set tc1 \<and> Tick f \<notin> set ls1"
    if ex: "path_exists (fsys w) (joinpath root f)" for f
  proof
    show "joinpath root f \<notin> set tc1"
    proof
      assume "joinpath root f \<in> set tc1"
      with one(4) have "joinpath root f = joinpath root g" by blast
      with ex one(5) have "tc1 = []" by simp
      with \<open>joinpath root f \<in> set tc1\<close> show False by simp
    qed
    show "Tick f \<notin> set ls1"
    proof
      assume "Tick f \<in> set ls1"
      with one(3) have "f = g" by blast
      with ex one(5) have "Tick f \<notin> set ls1" by simp
      with \<open>Tick f \<in> set ls1\<close> show False by simp
    qed
  qed
  show ?case
  proof (cases r1)
    case (Raised e)
    with Cons.prems c have "r = Raised e" "w' = w1" by auto
    with one(1,2) keep1 show ?thesis
      by (intro exI[of _ ls1] exI[of _ tc1]) simp
  next
    case Ok
    with Cons.prems c have rest: "create_files root fs w1 = (r, w')" by simp
    from Cons.IH[OF rest] obtain ls2 tc2 where
      more0: "stdout w' = stdout w1 @ ls2 \<and> touch_calls w' = touch_calls w1 @ tc2 \<and>
        (\<forall>f. path_exists (fsys w1) (joinpath root f) \<longrightarrow>
           joinpath root f \<notin> set tc2 \<and> Tick f \<notin> set ls2 \<and>
           (r = Ok \<longrightarrow> f \<in> set fs \<longrightarrow> AlreadyPresent f \<in> set ls2)) \<and>
        (r = Ok \<longrightarrow> (\<forall>f\<in>set fs. path_exists (fsys w') (joinpath root f)
           \<and> is_dir (fsys w') (parent (joinpath root f))))"
      by (elim exE) (rule that)
    note more = more0[THEN conjunct1] more0[THEN conjunct2, THEN conjunct1]
      more0[THEN conjunct2, THEN conjunct2, THEN conjunct1]
      more0[THEN conjunct2, THEN conjunct2, THEN conjunct2]
    have mono2: "fsys w1 \<subseteq>\<^sub>m fsys w'"
      using steady_mono[OF steady_create_files rest] .
    have a: "joinpath root f \<notin> set (tc1 @ tc2) \<and> Tick f \<notin> set (ls1 @ ls2) \<and>
        (r = Ok \<longrightarrow> f \<in> set (g # fs) \<longrightarrow> AlreadyPresent f \<in> set (ls1 @ ls2))"
      if ex: "path_exists (fsys w) (joinpath root f)" for f
    proof -
      from path_exists_mono[OF ex mono1] more(3)
      have l: "joinpath root f \<notin> set tc2" "Tick f \<notin> set ls2"
        "r = Ok \<longrightarrow> f \<in> set fs \<longrightarrow> AlreadyPresent f \<in> set ls2" by blast+
      have "f = g \<longrightarrow> AlreadyPresent f \<in> set ls1"
        using one(5) ex Ok by auto
      with l keep1[OF ex] show ?thesis by simp
    qed
    have b: "r = Ok \<longrightarrow> (\<forall>f\<in>set (g # fs). path_exists (fsys w') (joinpath root f)
        \<and> is_dir (fsys w') (parent (joinpath root f)))"
    proof (intro impI ballI)
      fix f assume "r = Ok" "f \<in> set (g # fs)"
      show "path_exists (fsys w') (joinpath root f) \<and> is_dir (fsys w') (parent (joinpath root f))"
      proof (cases "f = g")
        case True
        with one(6) Ok path_exists_mono[OF _ mono2] is_dir_mono[OF _ mono2] show ?thesis by blast
      next
        case False
        with \<open>f \<in> set (g # fs)\<close> \<open>r = Ok\<close> more(4) show ?thesis by simp
      qed
    qed
    from one(1,2) more(1,2) have "stdout w' = stdout w @ (ls1 @ ls2)"
      "touch_calls w' = touch_calls w @ (tc1 @ tc2)" by simp_all
    with a b show ?thesis by blast
  qed
qed

lemma verify_items_result:
  "verify_items root items b w =
     (b \<and> list_all (\<lambda>item. path_exists (fsys w) (joinpath root item)) items,
      w\<lparr>stdout := stdout w @
           map (\<lambda>item. if path_exists (fsys w) (joinpath root item) then Tick item else Missing item)
             items\<rparr>)"
  by (induction items arbitrary: b w) (auto simp: print_def)



section \<open>The \<open>try\<close> block as a whole\<close>


lemma fst_create: "fst (create_project_structure w) = (fst (try_block w) = Ok)"
  by (cases "try_block w") (simp add: create_project_structure_def split: outcome.splits)

lemma try_block_result:
  assumes run: "try_block w = (r, w')"
  shows "\<exists>pre ls post tc.
      stdout w' = stdout w @ pre @ ls @ post \<and> touch_calls w' = touch_calls w @ tc \<and>
      set pre \<subseteq> {CreatingMain project_path, DirsHeading, FilesHeading}
        \<union> (\<lambda>d. Tick (d @ ''/'')) ` set directories \<and>
      set post \<subseteq> {StructureCreated, ProjectPathLine project_path, TreeOverview,
        NextSteps project_path} \<and>
      (\<forall>f. path_exists (fsys w) (joinpath project_path f) \<longrightarrow>
         joinpath project_path f \<notin> set tc \<and> Tick f \<notin> set ls \<and>
         (r = Ok \<longrightarrow> f \<in> set files \<longrightarrow> AlreadyPresent f \<in> set ls)) \<and>
      (r = Ok \<longrightarrow> is_dir (fsys w') project_path \<and>
         (\<forall>d\<in>set directories. is_dir (fsys w') (joinpath project_path d)) \<and>
         (\<forall>f\<in>set files. path_exists (fsys w') (joinpath project_path f)
            \<and> is_dir (fsys w') (parent (joinpath project_path f))))"
    (is "\<exists>pre ls post tc. ?G pre ls post tc")
proof -
  let ?pp = project_path
  let ?tick = "\<lambda>d. Tick (d @ ''/'')"
  obtain r1 w1 where m: "path_mkdir True True ?pp (print (CreatingMain ?pp) w) = (r1, w1)"
    by fastforce
  from path_mkdir_fields[OF m] have f1: "stdout w1 = stdout w @ [CreatingMain ?pp]"
    "touch_calls w1 = touch_calls w" by simp_all
  from steady_mono[OF steady_path_mkdir m] have mono1: "fsys w \<subseteq>\<^sub>m fsys w1" by simp
  show ?thesis
  proof (cases r1)
    case (Raised e)
    with run m have "r = Raised e" "w' = w1" by (simp_all add: try_block_def)
    with f1 have "?G [CreatingMain ?pp] [] [] []" by simp
    then show ?thesis by (intro exI)
  next
    case Ok1: Ok
    from m Ok1 have d1: "is_dir (fsys w1) ?pp" by (simp add: path_mkdir_Ok_is_dir)
    obtain r2 w2 where c: "create_dirs ?pp directories (print DirsHeading w1) = (r2, w2)"
      by fastforce
    from create_dirs_result[OF c] obtain fin where
      fin0: "prefix fin directories \<and> (r2 = Ok \<longrightarrow> fin = directories) \<and>
        stdout w2 = stdout (print DirsHeading w1) @ map ?tick fin \<and>
        touch_calls w2 = touch_calls (print DirsHeading w1) \<and>
        (\<forall>d\<in>set fin. is_dir (fsys w2) (joinpath ?pp d))"
      by (elim exE) (rule that)
    then have f2: "stdout w2 = stdout w @ ([CreatingMain ?pp, DirsHeading] @ map ?tick fin)"
      "touch_calls w2 = touch_calls w" and sub: "set fin \<subseteq> set directories"
      and all2: "r2 = Ok \<longrightarrow> fin = directories"
      and dirs2: "\<forall>d\<in>set fin. is_dir (fsys w2) (joinpath ?pp d)"
      using f1 by (simp_all add: set_mono_prefix)
    from steady_mono[OF steady_create_dirs c] have mono2: "fsys w1 \<subseteq>\<^sub>m fsys w2" by simp
    from sub have pre2: "set ([CreatingMain ?pp, DirsHeading] @ map ?tick fin)
        \<subseteq> {CreatingMain ?pp, DirsHeading, FilesHeading} \<union> ?tick ` set directories"
      by auto
    show ?thesis
    proof (cases r2)
      case (Raised e)
      with run m Ok1 c have "r = Raised e" "w' = w2" by (simp_all add: try_block_def)
      with f2 pre2 have "?G ([CreatingMain ?pp, DirsHeading] @ map ?tick fin) [] [] []" by simp
      then show ?thesis by (intro exI)
    next
      case Ok2: Ok
      with all2 have fin: "fin = directories" by simp
      obtain r3 w3 where cf: "create_files ?pp files (print FilesHeading w2) = (r3, w3)"
        by fastforce
      from create_files_result[OF cf] obtain ls tc where
        fl0: "stdout w3 = stdout (print FilesHeading w2) @ ls \<and>
          touch_calls w3 = touch_calls (print FilesHeading w2) @ tc \<and>
          (\<forall>f. path_exists (fsys (print FilesHeading w2)) (joinpath ?pp f) \<longrightarrow>
             joinpath ?pp f \<notin> set tc \<and> Tick f \<notin> set ls \<and>
             (r3 = Ok \<longrightarrow> f \<in> set files \<longrightarrow> AlreadyPresent f \<in> set ls)) \<and>
          (r3 = Ok \<longrightarrow> (\<forall>f\<in>set files. path_exists (fsys w3) (joinpath ?pp f)
             \<and> is_dir (fsys w3) (parent (joinpath ?pp f))))"
        by (elim exE) (rule that)
      let ?pre = "[CreatingMain ?pp, DirsHeading] @ map ?tick directories @ [FilesHeading]"
      from fl0 f2 fin have f3: "stdout w3 = stdout w @ ?pre @ ls"
        "touch_calls w3 = touch_calls w @ tc" by simp_all
      from steady_mono[OF steady_create_files cf] have mono3: "fsys w2 \<subseteq>\<^sub>m fsys w3" by simp
      have pre3: "set ?pre \<subseteq> {CreatingMain ?pp, DirsHeading, FilesHeading} \<union> ?tick ` set directories"
        by auto
      have old: "joinpath ?pp f \<notin> set tc \<and> Tick f \<notin> set ls \<and>
          (r3 = Ok \<longrightarrow> f \<in> set files \<longrightarrow> AlreadyPresent f \<in> set ls)"
        if "path_exists (fsys w) (joinpath ?pp f)" for f
      proof -
        from that mono1 have "path_exists (fsys w1) (joinpath ?pp f)" by (rule path_exists_mono)
        then have "path_exists (fsys w2) (joinpath ?pp f)" using mono2 by (rule path_exists_mono)
        with fl0 show ?thesis by simp
      qed
      show ?thesis
      proof (cases r3)
        case (Raised e)
        with run m Ok1 c Ok2 cf have "r = Raised e" "w' = w3" by (simp_all add: try_block_def)
        with f3 pre3 old have "?G ?pre ls [] tc" by simp
        then show ?thesis by (intro exI)
      next
        case Ok3: Ok
        with run m Ok1 c Ok2 cf have res: "r = Ok" "w' = print_summary w3"
          by (simp_all add: try_block_def)
        let ?post = "[StructureCreated, ProjectPathLine ?pp, TreeOverview, NextSteps ?pp]"
        from res f3 have f4: "stdout w' = stdout w @ ?pre @ ls @ ?post"
          "touch_calls w' = touch_calls w @ tc" "fsys w' = fsys w3"
          by (simp_all add: print_summary_def)
        from d1 mono2 have "is_dir (fsys w2) ?pp" by (rule is_dir_mono)
        then have p1: "is_dir (fsys w3) ?pp" using mono3 by (rule is_dir_mono)
        have p2: "\<forall>d\<in>set directories. is_dir (fsys w3) (joinpath ?pp d)"
          using dirs2 fin is_dir_mono[OF _ mono3] by blast
        from fl0 Ok3 have p3: "\<forall>f\<in>set files. path_exists (fsys w3) (joinpath ?pp f)
             \<and> is_dir (fsys w3) (parent (joinpath ?pp f))" by simp
        from f4 pre3 old Ok3 res p1 p2 p3 have "?G ?pre ls ?post tc" by simp
        then show ?thesis by (intro exI)
      qed
    qed
  qed
qed


section \<open>Runs on the example filesystems\<close>

lemma project_path_parts:
  "project_path = PurePath (''C:'' @ [bslash])
     [''Users'', ''damja'', ''WebstormProjects'', ''Shirtful'', ''Wareneingang'', ''rfid-qr-app'']"
  by code_simp

lemma run_on_empty_drive: "fst (try_block (print Rule (print Banner (start empty_drive)))) = Ok"
  by code_simp

lemma run_without_drive:
  "fst (try_block (print Rule (print Banner (start no_drive)))) = Raised (FileNotFoundError c_drive)"
  by code_simp

lemma run_on_locked_drive:
  "fst (try_block (print Rule (print Banner (start locked_drive))))
     = Raised (PermissionError (below c_drive [''Users'']))"
  by code_simp

lemma run_with_users_file:
  "fst (try_block (print Rule (print Banner (start users_is_file))))
     = Raised (FileExistsError (below c_drive [''Users'']))"
  by code_simp

lemma expected_items_declared: "set expected_items \<subseteq> set directories \<union> set files"
  by code_simp


lemma create_on_empty_drive: "fst (create_project_structure (start empty_drive))"
  by code_simp



section \<open>A project that is already there\<close>

lemma try_block_settled:
  assumes root: "is_dir (fsys v) project_path"
    and dirs: "\<forall>d\<in>set directories. is_dir (fsys v) (joinpath project_path d)"
    and fls: "\<forall>f\<in>set files. path_exists (fsys v) (joinpath project_path f)
      \<and> is_dir (fsys v) (parent (joinpath project_path f))"
  shows "try_block v =
    (Ok, v\<lparr>stdout := stdout v @ [CreatingMain project_path, DirsHeading]
        @ map (\<lambda>d. Tick (d @ ''/'')) directories @ [FilesHeading] @ map AlreadyPresent files
        @ [StructureCreated, ProjectPathLine project_path, TreeOverview, NextSteps project_path]\<rparr>)"
proof -
  let ?v1 = "print (CreatingMain project_path) v"
  have 1: "path_mkdir True True project_path ?v1 = (Ok, ?v1)"
    using root by (simp add: path_mkdir_existing_dir)
  let ?v2 = "print DirsHeading ?v1"
  let ?v3 = "?v2\<lparr>stdout := stdout ?v2 @ map (\<lambda>d. Tick (d @ ''/'')) directories\<rparr>"
  have 2: "create_dirs project_path directories ?v2 = (Ok, ?v3)"
    using dirs by (intro create_dirs_present) simp
  let ?v4 = "print FilesHeading ?v3"
  let ?v5 = "?v4\<lparr>stdout := stdout ?v4 @ map AlreadyPresent files\<rparr>"
  have 3: "create_files project_path files ?v4 = (Ok, ?v5)"
    using fls by (intro create_files_present) simp
  have "try_block v = (Ok, print_summary ?v5)"
    unfolding try_block_def by (simp only: 1 2 3 prod.case outcome.case)
  then show ?thesis
    by (simp add: print_summary_def print_def)
qed

lemma first_run_lines:
  "new_lines (start empty_drive) (snd (create_project_structure (start empty_drive))) =
     [CreatingMain project_path, DirsHeading] @ map (\<lambda>d. Tick (d @ ''/'')) directories
       @ [FilesHeading] @ map Tick files
       @ [StructureCreated, ProjectPathLine project_path, TreeOverview, NextSteps project_path]"
  by code_simp

lemma second_run:
  assumes "fst (create_project_structure w)"
  shows "create_project_structure (snd (create_project_structure w)) =
    (True, (snd (create_project_structure w))
      \<lparr>stdout := stdout (snd (create_project_structure w)) @ [CreatingMain project_path, DirsHeading]
        @ map (\<lambda>d. Tick (d @ ''/'')) directories @ [FilesHeading] @ map AlreadyPresent files
        @ [StructureCreated, ProjectPathLine project_path, TreeOverview, NextSteps project_path]\<rparr>)"
proof -
  obtain w' where t: "try_block w = (Ok, w')"
    using assms by (cases "try_block w") (simp add: fst_create)
  then have w': "snd (create_project_structure w) = w'"
    by (simp add: create_project_structure_def)
  from try_block_result[OF t] have post: "is_dir (fsys w') project_path"
    "\<forall>d\<in>set directories. is_dir (fsys w') (joinpath project_path d)"
    "\<forall>f\<in>set files. path_exists (fsys w') (joinpath project_path f)
      \<and> is_dir (fsys w') (parent (joinpath project_path f))"
    by auto
  show ?thesis
    unfolding w' by (simp add: create_project_structure_def try_block_settled[OF post])
qed

section \<open>A regular file where a directory is needed\<close>

lemma directories_are_children:
  "\<forall>d\<in>set directories. parent (joinpath project_path d) = project_path
     \<and> joinpath project_path d \<noteq> project_path"
  by code_simp

lemma file_parents:
  "\<forall>f\<in>set files. parent (joinpath project_path f) = project_path
     \<or> parent (joinpath project_path f) \<in> joinpath project_path ` set directories"
  by code_simp

lemma path_mkdir_child:
  assumes par: "parent p = root" and root: "fsys w root = Some (Dir True)"
  shows "path_mkdir False True p w =
    (case fsys w p of
       None \<Rightarrow> (Ok, w\<lparr>fsys := (fsys w)(p \<mapsto> Dir True)\<rparr>)
     | Some (Dir b) \<Rightarrow> (Ok, w)
     | Some (File c) \<Rightarrow> (Raised (FileExistsError p), w))"
  using assms by (simp add: path_mkdir_def mkdir_unfold is_dir_def split: option.splits node.splits)









section \<open>Directories that are missing\<close>

lemma below_Nil [simp]: "below root [] = root"
  by (simp add: below_def)

lemma below_eq [simp]: "below root a = below root b \<longleftrightarrow> a = b"
  by (simp add: below_def)

lemma below_eq_root [simp]: "below root a = root \<longleftrightarrow> a = []"
  using below_eq[of root a "[]"] by (simp del: below_eq)

lemma root_eq_below [simp]: "root = below root a \<longleftrightarrow> a = []"
  using below_eq_root[of root a] by (auto simp del: below_eq_root)

lemma parent_below_snoc [simp]: "parent (below root (ns @ [x])) = below root ns"
  by (simp add: parent_def below_def butlast_append)

lemma parent_below_single [simp]: "parent (below root [x]) = root"
  using parent_below_snoc[of root "[]" x] by (simp del: parent_below_snoc)

lemma mkdir_chain:
  assumes base: "fs base = Some (Dir True)"
  shows "(\<forall>ds. ds \<noteq> [] \<and> prefix ds cs \<longrightarrow> fs (below base ds) = None) \<Longrightarrow>
    mkdir True True (below base cs) fs =
      (Ok, \<lambda>q. if \<exists>ds. ds \<noteq> [] \<and> prefix ds cs \<and> q = below base ds then Some (Dir True) else fs q)"
proof (induction cs rule: rev_induct)
  case Nil
  have "mkdir True True base fs = (Ok, fs)"
    using base by (intro mkdir_existing_dir) (simp add: is_dir_def)
  then show ?case by simp
next
  case (snoc x cs)
  let ?p = "below base (cs @ [x])"
  let ?f1 = "\<lambda>q. if \<exists>ds. ds \<noteq> [] \<and> prefix ds cs \<and> q = below base ds then Some (Dir True) else fs q"
  have none: "fs ?p = None"
    using snoc.prems by simp
  show ?case
  proof (cases "cs = []")
    case True
    have "mkdir True True ?p fs = (Ok, fs(?p \<mapsto> Dir True))"
      using none base True by (subst mkdir_unfold) simp
    moreover have "fs(?p \<mapsto> Dir True) =
        (\<lambda>q. if \<exists>ds. ds \<noteq> [] \<and> prefix ds (cs @ [x]) \<and> q = below base ds then Some (Dir True) else fs q)"
      using True by (intro ext) (auto simp: prefix_Cons)
    ultimately show ?thesis by simp
  next
    case False
    have pn: "fs (below base cs) = None"
      using snoc.prems False by simp
    have ih: "mkdir True True (below base cs) fs = (Ok, ?f1)"
      using snoc.prems by (intro snoc.IH) simp
    have f1p: "?f1 ?p = None"
      using none by simp
    have f1par: "?f1 (below base cs) = Some (Dir True)"
      using False by auto
    have second: "mkdir False True ?p ?f1 = (Ok, ?f1(?p \<mapsto> Dir True))"
      using f1p f1par False by (subst mkdir_unfold) (simp del: prefix_snoc)
    have first: "mkdir True True ?p fs = mkdir False True ?p ?f1"
      using none pn ih False by (subst mkdir_unfold) simp
    have "?f1(?p \<mapsto> Dir True) =
        (\<lambda>q. if \<exists>ds. ds \<noteq> [] \<and> prefix ds (cs @ [x]) \<and> q = below base ds then Some (Dir True) else fs q)"
      by (intro ext) auto
    with first second show ?thesis by simp
  qed
qed

lemma create_dirs_children:
  assumes "fsys w root = Some (Dir True)"
    and "\<forall>d\<in>set ds. parent (joinpath root d) = root \<and> joinpath root d \<noteq> root"
    and "\<forall>d\<in>set ds. \<forall>c. fsys w (joinpath root d) \<noteq> Some (File c)"
  shows "\<exists>w'. create_dirs root ds w = (Ok, w') \<and>
    (\<forall>q. fsys w' q = (if q \<in> joinpath root ` set ds \<and> fsys w q = None then Some (Dir True)
       else fsys w q))"
  using assms
proof (induction ds arbitrary: w)
  case Nil
  then show ?case by simp
next
  case (Cons d ds)
  let ?p = "joinpath root d"
  from Cons.prems(2) have par: "parent ?p = root" and ne: "?p \<noteq> root" by simp_all
  note step = path_mkdir_child[OF par Cons.prems(1)]
  show ?case
  proof (cases "fsys w ?p")
    case None
    let ?w1 = "print (Tick (d @ ''/'')) (w\<lparr>fsys := (fsys w)(?p \<mapsto> Dir True)\<rparr>)"
    have run: "create_dirs root (d # ds) w = create_dirs root ds ?w1"
      using step None by simp
    have r1: "fsys ?w1 root = Some (Dir True)"
      using Cons.prems(1) ne by simp
    have nf: "\<forall>d\<in>set ds. \<forall>c. fsys ?w1 (joinpath root d) \<noteq> Some (File c)"
      using Cons.prems(3) by simp
    from Cons.IH[OF r1 _ nf] Cons.prems(2)
    obtain w' where w': "create_dirs root ds ?w1 = (Ok, w')"
      "\<forall>q. fsys w' q = (if q \<in> joinpath root ` set ds \<and> fsys ?w1 q = None then Some (Dir True)
         else fsys ?w1 q)"
      by auto
    have "fsys w' q = (if q \<in> joinpath root ` set (d # ds) \<and> fsys w q = None then Some (Dir True)
       else fsys w q)" for q
      using w'(2) None by (cases "q = ?p") auto
    with run w'(1) show ?thesis by simp
  next
    case (Some n)
    with Cons.prems(3) obtain b where n: "n = Dir b" by (cases n) auto
    let ?w1 = "print (Tick (d @ ''/'')) w"
    have run: "create_dirs root (d # ds) w = create_dirs root ds ?w1"
      using step Some n by simp
    from Cons.IH[of ?w1] Cons.prems
    obtain w' where w': "create_dirs root ds ?w1 = (Ok, w')"
      "\<forall>q. fsys w' q = (if q \<in> joinpath root ` set ds \<and> fsys ?w1 q = None then Some (Dir True)
         else fsys ?w1 q)"
      by auto
    have "fsys w' q = (if q \<in> joinpath root ` set (d # ds) \<and> fsys w q = None then Some (Dir True)
       else fsys w q)" for q
      using w'(2) Some by (cases "q = ?p") auto
    with run w'(1) show ?thesis by simp
  qed
qed

lemma create_files_into_dirs:
  assumes "\<forall>f\<in>set fs. fsys w (parent (joinpath root f)) = Some (Dir True)"
  shows "\<exists>w'. create_files root fs w = (Ok, w') \<and>
    (\<forall>q. fsys w' q = (if q \<in> joinpath root ` set fs \<and> fsys w q = None then Some (File [])
       else fsys w q))"
  using assms
proof (induction fs arbitrary: w)
  case Nil
  then show ?case by simp
next
  case (Cons f fs)
  let ?p = "joinpath root f"
  from Cons.prems have pd: "fsys w (parent ?p) = Some (Dir True)" by simp
  then have m: "path_mkdir True True (parent ?p) w = (Ok, w)"
    by (intro path_mkdir_existing_dir) (simp add: is_dir_def)
  show ?case
  proof (cases "fsys w ?p")
    case None
    let ?w1 = "print (Tick f) (w\<lparr>fsys := (fsys w)(?p \<mapsto> File []), touch_calls := touch_calls w @ [?p]\<rparr>)"
    have "create_file root f w = (Ok, ?w1)"
      using None pd m by (simp add: create_file_def Let_def path_exists_def path_touch_def touch_cases)
    then have run: "create_files root (f # fs) w = create_files root fs ?w1"
      by simp
    have "\<forall>g\<in>set fs. fsys ?w1 (parent (joinpath root g)) = Some (Dir True)"
      using Cons.prems None by auto
    from Cons.IH[OF this]
    obtain w' where w': "create_files root fs ?w1 = (Ok, w')"
      "\<forall>q. fsys w' q = (if q \<in> joinpath root ` set fs \<and> fsys ?w1 q = None then Some (File [])
         else fsys ?w1 q)"
      by auto
    have "fsys w' q = (if q \<in> joinpath root ` set (f # fs) \<and> fsys w q = None then Some (File [])
       else fsys w q)" for q
      using w'(2) None by (cases "q = ?p") auto
    with run w'(1) show ?thesis by simp
  next
    case (Some n)
    let ?w1 = "print (AlreadyPresent f) w"
    have "create_file root f w = (Ok, ?w1)"
      using Some m by (simp add: create_file_def Let_def path_exists_def)
    then have run: "create_files root (f # fs) w = create_files root fs ?w1"
      by simp
    have "\<forall>g\<in>set fs. fsys ?w1 (parent (joinpath root g)) = Some (Dir True)"
      using Cons.prems by simp
    from Cons.IH[OF this]
    obtain w' where w': "create_files root fs ?w1 = (Ok, w')"
      "\<forall>q. fsys w' q = (if q \<in> joinpath root ` set fs \<and> fsys ?w1 q = None then Some (File [])
         else fsys ?w1 q)"
      by auto
    have "fsys w' q = (if q \<in> joinpath root ` set (f # fs) \<and> fsys w q = None then Some (File [])
       else fsys w q)" for q
      using w'(2) Some by (cases "q = ?p") auto
    with run w'(1) show ?thesis by simp
  qed
qed

lemma layout_below:
  "\<forall>s\<in>set (directories @ files).
     joinpath project_path s = below project_path (names (Path s)) \<and> names (Path s) \<noteq> []"
  by code_simp

lemma files_not_directories:
  "\<forall>f\<in>set files. joinpath project_path f \<notin> joinpath project_path ` set directories"
  by code_simp

lemma project_ancestor_below:
  "project_ancestor (k + j) = below (project_ancestor k) (take j (drop k (names project_path)))"
  by (simp add: project_ancestor_def below_def take_add)

lemma project_path_below:
  "project_path = below (project_ancestor k) (drop k (names project_path))"
  by (simp add: project_ancestor_def below_def)

lemma well_formedD: "well_formed fs \<Longrightarrow> fs p \<noteq> None \<Longrightarrow> names p \<noteq> [] \<Longrightarrow> is_dir fs (parent p)"
  unfolding well_formed_def by blast

lemma nothing_below_nothing:
  assumes wf: "well_formed fs" and q: "fs q = None"
  shows "fs (below q ns) = None"
proof (induction ns rule: rev_induct)
  case Nil
  with q show ?case by simp
next
  case (snoc x ns)
  show ?case
  proof (rule ccontr)
    assume "fs (below q (ns @ [x])) \<noteq> None"
    moreover have "names (below q (ns @ [x])) \<noteq> []"
      by (simp add: below_def)
    ultimately have "is_dir fs (parent (below q (ns @ [x])))"
      by (rule well_formedD[OF wf])
    then have "is_dir fs (below q ns)"
      by simp
    with snoc show False by (simp add: is_dir_def)
  qed
qed

lemma well_formed_update:
  assumes wf: "well_formed fs" and p: "fs p = None" and par: "is_dir fs (parent p)"
  shows "well_formed (fs(p \<mapsto> n))"
  unfolding well_formed_def
proof (intro allI impI)
  fix q
  assume h: "(fs(p \<mapsto> n)) q \<noteq> None \<and> names q \<noteq> []"
  have pp: "parent q' \<noteq> p" if "is_dir fs (parent q')" for q'
    using that p by (auto simp: is_dir_def)
  show "is_dir (fs(p \<mapsto> n)) (parent q)"
  proof (cases "q = p")
    case True
    with par pp[OF par] show ?thesis by (simp add: is_dir_def)
  next
    case False
    with h have "fs q \<noteq> None" by simp
    from well_formedD[OF wf this] h have d: "is_dir fs (parent q)" by simp
    with pp[OF d] show ?thesis by (simp add: is_dir_def)
  qed
qed

lemma mkdir_well_formed:
  "mkdir a b p fs = (r, fs') \<Longrightarrow> well_formed fs \<Longrightarrow> well_formed fs'"
proof (induction a b p fs arbitrary: r fs' rule: mkdir.induct)
  case (1 parents exist_ok p fs)
  note res = "1.prems"(1) and wf = "1.prems"(2)
  consider (direct) "fs p \<noteq> None \<or> fs (parent p) = Some (Dir True) \<or> fs (parent p) = Some (Dir False)
      \<or> \<not> parents \<or> parent p = p"
    | (rec) "fs p = None" "fs (parent p) \<noteq> Some (Dir True)" "fs (parent p) \<noteq> Some (Dir False)"
        "parents" "parent p \<noteq> p"
    by blast
  then show ?case
  proof cases
    case direct
    from res have "fs' = fs \<or> (fs' = fs(p \<mapsto> Dir True) \<and> fs p = None \<and> fs (parent p) = Some (Dir True))"
      using direct by (subst (asm) mkdir_unfold) (auto split: if_splits)
    with wf show ?thesis
      by (auto intro!: well_formed_update simp: is_dir_def)
  next
    case rec
    have om: "(Raised (FileNotFoundError p), fs) = os_mkdir p fs"
      using rec by (simp add: os_mkdir_cases)
    obtain r1 fs1 where m1: "mkdir True True (parent p) fs = (r1, fs1)"
      by fastforce
    have cond: "\<not> (\<not> parents \<or> parent p = p)"
      using rec by simp
    from "1.IH"(1)[OF om refl refl cond m1 wf] have wf1: "well_formed fs1" .
    from res rec m1 have res': "(r, fs') =
        (case r1 of Ok \<Rightarrow> mkdir False exist_ok p fs1 | Raised e \<Rightarrow> (Raised e, fs1))"
      by (subst (asm) mkdir_unfold) (simp split: outcome.splits)
    show ?thesis
    proof (cases r1)
      case (Raised e)
      with res' wf1 show ?thesis by simp
    next
      case Ok
      with res' have "mkdir False exist_ok p fs1 = (r, fs')" by simp
      from "1.IH"(2)[OF om refl refl cond m1[symmetric] Ok this wf1] show ?thesis .
    qed
  qed
qed

lemma well_formed_empty_drive: "well_formed empty_drive"
  by (auto simp: well_formed_def empty_drive_def c_drive_def split: if_splits)

lemma well_formed_chain_only: "well_formed chain_only"
proof -
  obtain r fs' where m: "mkdir True True project_path empty_drive = (r, fs')" by fastforce
  from mkdir_well_formed[OF m well_formed_empty_drive] m show ?thesis
    by (simp add: chain_only_def)
qed

lemma well_formed_home_drive: "well_formed home_drive"
proof -
  have 0: "well_formed (Map.empty(c_drive \<mapsto> Dir False))"
    by (auto simp: well_formed_def c_drive_def split: if_splits)
  have 1: "well_formed (Map.empty(c_drive \<mapsto> Dir False, below c_drive [''Users''] \<mapsto> Dir False))"
    by (rule well_formed_update[OF 0]) (simp_all add: is_dir_def)
  have 2: "well_formed (Map.empty(c_drive \<mapsto> Dir False, below c_drive [''Users''] \<mapsto> Dir False,
      below c_drive [''Users'', ''damja''] \<mapsto> Dir True))"
    using parent_below_snoc[of c_drive "[''Users'']" "''damja''"]
    by (intro well_formed_update[OF 1]) (simp_all add: is_dir_def del: parent_below_snoc)
  have 3: "well_formed (Map.empty(c_drive \<mapsto> Dir False, below c_drive [''Users''] \<mapsto> Dir False,
      below c_drive [''Users'', ''damja''] \<mapsto> Dir True,
      below c_drive [''Users'', ''damja'', ''Documents''] \<mapsto> Dir True))"
    using parent_below_snoc[of c_drive "[''Users'', ''damja'']" "''Documents''"]
    by (intro well_formed_update[OF 2]) (simp_all add: is_dir_def del: parent_below_snoc)
  show ?thesis
    unfolding home_drive_def
    using parent_below_snoc[of c_drive "[''Users'', ''damja'', ''Documents'']" "''notes.txt''"]
    by (intro well_formed_update[OF 3]) (simp_all add: is_dir_def del: parent_below_snoc)
qed

lemma chain_is_created:
  assumes base: "fsys w (project_ancestor k) = Some (Dir True)"
    and free: "\<forall>ds. ds \<noteq> [] \<and> prefix ds (drop k (names project_path))
      \<longrightarrow> fsys w (below (project_ancestor k) ds) = None"
    and inner: "\<forall>x xs. fsys w (below project_path (x # xs)) = None"
  shows "\<exists>w1. path_mkdir True True project_path w = (Ok, w1) \<and>
    fsys w1 project_path = Some (Dir True) \<and>
    (\<forall>x xs. fsys w1 (below project_path (x # xs)) = None) \<and>
    (\<forall>j. fsys w1 (project_ancestor (k + j)) = Some (Dir True)) \<and>
    stdout w1 = stdout w \<and> touch_calls w1 = touch_calls w"
proof -
  let ?b = "project_ancestor k"
  let ?cs = "drop k (names project_path)"
  let ?f1 = "\<lambda>q. if \<exists>ds. ds \<noteq> [] \<and> prefix ds ?cs \<and> q = below ?b ds then Some (Dir True)
     else fsys w q"
  have "mkdir True True (below ?b ?cs) (fsys w) = (Ok, ?f1)"
    using free by (intro mkdir_chain[where fs="fsys w" and base="?b" and cs="?cs", OF base]) simp
  then have m: "path_mkdir True True project_path w = (Ok, w\<lparr>fsys := ?f1\<rparr>)"
    using project_path_below[of k] by (simp add: path_mkdir_def)
  have pp: "?f1 project_path = Some (Dir True)"
  proof (cases "?cs = []")
    case True
    with project_path_below[of k] have "project_path = ?b" by simp
    with base True show ?thesis by simp
  next
    case False
    have "\<exists>ds. ds \<noteq> [] \<and> prefix ds ?cs \<and> project_path = below ?b ds"
      using False project_path_below[of k] by (intro exI[of _ ?cs]) simp
    then show ?thesis by simp
  qed
  have under: "?f1 (below project_path (x # xs)) = None" for x xs
  proof -
    have eq: "below project_path (x # xs) = below ?b (?cs @ x # xs)"
      by (simp add: project_ancestor_def below_def)
    have "\<not> (\<exists>ds. ds \<noteq> [] \<and> prefix ds ?cs \<and> below project_path (x # xs) = below ?b ds)"
    proof
      assume "\<exists>ds. ds \<noteq> [] \<and> prefix ds ?cs \<and> below project_path (x # xs) = below ?b ds"
      then obtain ds where "prefix ds ?cs" "below project_path (x # xs) = below ?b ds" by blast
      with eq have "prefix (?cs @ x # xs) ?cs" by simp
      from prefix_length_le[OF this] show False by simp
    qed
    with inner show ?thesis by simp
  qed
  have chain: "?f1 (project_ancestor (k + j)) = Some (Dir True)" for j
  proof (cases "take j ?cs = []")
    case True
    then have "project_ancestor (k + j) = ?b"
      by (simp add: project_ancestor_below)
    with base show ?thesis by simp
  next
    case False
    have "\<exists>ds. ds \<noteq> [] \<and> prefix ds ?cs \<and> project_ancestor (k + j) = below ?b ds"
      using False by (intro exI[of _ "take j ?cs"]) (simp add: project_ancestor_below take_is_prefix)
    then show ?thesis by simp
  qed
  from m pp under chain show ?thesis
    by (intro exI[of _ "w\<lparr>fsys := ?f1\<rparr>"]) simp
qed

lemma run_from_ancestor:
  assumes base: "fsys w (project_ancestor k) = Some (Dir True)"
    and free: "\<forall>ds. ds \<noteq> [] \<and> prefix ds (drop k (names project_path))
      \<longrightarrow> fsys w (below (project_ancestor k) ds) = None"
    and inner: "\<forall>x xs. fsys w (below project_path (x # xs)) = None"
  shows "\<exists>w'. try_block w = (Ok, w') \<and>
    (\<forall>j. fsys w' (project_ancestor (k + j)) = Some (Dir True)) \<and>
    (\<forall>d\<in>set directories. fsys w' (joinpath project_path d) = Some (Dir True)) \<and>
    (\<forall>f\<in>set files. fsys w' (parent (joinpath project_path f)) = Some (Dir True)
       \<and> fsys w' (joinpath project_path f) = Some (File []))"
proof -
  let ?pp = project_path
  let ?w0 = "print (CreatingMain ?pp) w"
  from chain_is_created[of ?w0 k] base free inner obtain w1 where
    m: "path_mkdir True True ?pp ?w0 = (Ok, w1)"
    and root1: "fsys w1 ?pp = Some (Dir True)"
    and free1: "\<And>x xs. fsys w1 (below ?pp (x # xs)) = None"
    and chain1: "\<And>j. fsys w1 (project_ancestor (k + j)) = Some (Dir True)"
    by auto
  have none1: "fsys w1 (joinpath ?pp s) = None" if "s \<in> set (directories @ files)" for s
  proof -
    from that layout_below have eq: "joinpath ?pp s = below ?pp (names (Path s))"
      and ne: "names (Path s) \<noteq> []" by blast+
    from ne obtain x xs where "names (Path s) = x # xs" by (cases "names (Path s)") auto
    with eq free1 show ?thesis by simp
  qed
  let ?w1 = "print DirsHeading w1"
  have "\<forall>d\<in>set directories. \<forall>c. fsys ?w1 (joinpath ?pp d) \<noteq> Some (File c)"
    using none1 by simp
  from create_dirs_children[of ?w1 ?pp directories, OF _ directories_are_children this] root1
  obtain w2 where c: "create_dirs ?pp directories ?w1 = (Ok, w2)"
    and fs2: "\<And>q. fsys w2 q = (if q \<in> joinpath ?pp ` set directories \<and> fsys w1 q = None
        then Some (Dir True) else fsys w1 q)"
    by auto
  have root2: "fsys w2 ?pp = Some (Dir True)"
    using root1 by (simp add: fs2)
  have dirs2: "fsys w2 (joinpath ?pp d) = Some (Dir True)" if "d \<in> set directories" for d
    using that none1[of d] by (simp add: fs2)
  have files2: "fsys w2 (joinpath ?pp f) = None" if "f \<in> set files" for f
    using that none1[of f] files_not_directories by (simp add: fs2)
  have chain2: "fsys w2 (project_ancestor (k + j)) = Some (Dir True)" for j
    using chain1[of j] by (simp add: fs2)
  have par2: "fsys w2 (parent (joinpath ?pp f)) = Some (Dir True)" if "f \<in> set files" for f
  proof -
    from that file_parents have "parent (joinpath ?pp f) = ?pp
        \<or> parent (joinpath ?pp f) \<in> joinpath ?pp ` set directories" by blast
    with root2 dirs2 show ?thesis by auto
  qed
  let ?w2 = "print FilesHeading w2"
  have "\<forall>f\<in>set files. fsys ?w2 (parent (joinpath ?pp f)) = Some (Dir True)"
    using par2 by simp
  from create_files_into_dirs[OF this]
  obtain w3 where cf: "create_files ?pp files ?w2 = (Ok, w3)"
    and fs3: "\<And>q. fsys w3 q = (if q \<in> joinpath ?pp ` set files \<and> fsys w2 q = None
        then Some (File []) else fsys w2 q)"
    by auto
  have t: "try_block w = (Ok, print_summary w3)"
    by (simp add: try_block_def m c cf)
  have "fsys w3 (project_ancestor (k + j)) = Some (Dir True)" for j
    using chain2[of j] by (simp add: fs3)
  moreover have "fsys w3 (joinpath ?pp d) = Some (Dir True)" if "d \<in> set directories" for d
    using dirs2[OF that] by (simp add: fs3)
  moreover have "fsys w3 (parent (joinpath ?pp f)) = Some (Dir True)
      \<and> fsys w3 (joinpath ?pp f) = Some (File [])" if "f \<in> set files" for f
    using par2[OF that] files2[OF that] that by (simp add: fs3)
  ultimately show ?thesis
    using t by (intro exI[of _ "print_summary w3"]) simp
qed

lemma missing_ancestor:
  assumes wf: "well_formed (fsys w)"
    and base: "fsys w (project_ancestor k) = Some (Dir True)"
    and next_missing: "fsys w (project_ancestor (Suc k)) = None"
  shows "\<forall>ds. ds \<noteq> [] \<and> prefix ds (drop k (names project_path))
      \<longrightarrow> fsys w (below (project_ancestor k) ds) = None"
    and "\<forall>x xs. fsys w (below project_path (x # xs)) = None"
proof -
  let ?ns = "names project_path"
  have k: "k < length ?ns"
  proof (rule ccontr)
    assume "\<not> k < length ?ns"
    then have "project_ancestor (Suc k) = project_ancestor k"
      by (simp add: project_ancestor_def)
    with base next_missing show False by simp
  qed
  then have cs: "drop k ?ns = ?ns ! k # drop (Suc k) ?ns"
    by (simp add: Cons_nth_drop_Suc)
  have step: "below (project_ancestor k) (?ns ! k # ys) = below (project_ancestor (Suc k)) ys" for ys
    using k by (simp add: project_ancestor_def below_def take_Suc_conv_app_nth)
  note gone = nothing_below_nothing[OF wf next_missing]
  show "\<forall>ds. ds \<noteq> [] \<and> prefix ds (drop k ?ns) \<longrightarrow> fsys w (below (project_ancestor k) ds) = None"
  proof (intro allI impI)
    fix ds assume "ds \<noteq> [] \<and> prefix ds (drop k ?ns)"
    then obtain ys where "ds = ?ns ! k # ys"
      unfolding cs by (cases ds) (auto simp: prefix_Cons)
    with step gone show "fsys w (below (project_ancestor k) ds) = None" by simp
  qed
  show "\<forall>x xs. fsys w (below project_path (x # xs)) = None"
  proof (intro allI)
    fix x xs
    have "below project_path (x # xs) = below (project_ancestor k) (drop k ?ns @ x # xs)"
      by (simp add: project_ancestor_def below_def)
    also have "\<dots> = below (project_ancestor (Suc k)) (drop (Suc k) ?ns @ x # xs)"
      unfolding cs using step by simp
    finally show "fsys w (below project_path (x # xs)) = None"
      using gone by simp
  qed
qed

lemma create_file_makes_directory:
  assumes wf: "well_formed (fsys v)" and f: "f \<in> set files"
    and root: "fsys v project_path = Some (Dir True)"
    and missing: "fsys v (parent (joinpath project_path f)) = None"
  shows "\<exists>v'. create_file project_path f v = (Ok, v') \<and>
    fsys v' (parent (joinpath project_path f)) = Some (Dir True) \<and>
    fsys v' (joinpath project_path f) = Some (File [])"
proof -
  let ?p = "joinpath project_path f"
  let ?d = "parent ?p"
  from f layout_below have ne: "names ?p \<noteq> []"
    by (auto simp: below_def)
  from root missing have "?d \<noteq> project_path" by auto
  with f file_parents have "?d \<in> joinpath project_path ` set directories" by blast
  with directories_are_children have pd: "parent ?d = project_path" by auto
  have pnone: "fsys v ?p = None"
  proof (rule ccontr)
    assume "fsys v ?p \<noteq> None"
    from well_formedD[OF wf this ne] missing show False by (simp add: is_dir_def)
  qed
  have neq: "?p \<noteq> ?d"
  proof
    assume "?p = ?d"
    then have "names ?p = names ?d" by simp
    then have eq: "names ?p = butlast (names ?p)"
      by (simp add: parent_def)
    from arg_cong[OF eq, of length] have "length (names ?p) = length (names ?p) - 1"
      by (simp only: length_butlast)
    moreover from ne have "0 < length (names ?p)" by simp
    ultimately show False by linarith
  qed
  let ?f1 = "(fsys v)(?d \<mapsto> Dir True)"
  have "mkdir True True ?d (fsys v) = (Ok, ?f1)"
    using missing pd root by (subst mkdir_unfold) simp
  then have m: "path_mkdir True True ?d v = (Ok, v\<lparr>fsys := ?f1\<rparr>)"
    by (simp add: path_mkdir_def)
  have t: "touch ?p ?f1 = (Ok, ?f1(?p \<mapsto> File []))"
    using pnone neq by (subst touch_cases) simp
  let ?v' = "print (Tick f) (v\<lparr>fsys := ?f1(?p \<mapsto> File []), touch_calls := touch_calls v @ [?p]\<rparr>)"
  have "create_file project_path f v = (Ok, ?v')"
    using m t pnone neq by (simp add: create_file_def Let_def path_exists_def path_touch_def)
  moreover have "fsys ?v' ?d = Some (Dir True)" "fsys ?v' ?p = Some (File [])"
    using neq by simp_all
  ultimately show ?thesis by blast
qed

lemma home_drive_facts:
  "fsys (start home_drive) (project_ancestor 2) = Some (Dir True)"
  "fsys (start home_drive) (project_ancestor (Suc 2)) = None"
  "fsys (start home_drive) (below c_drive [''Users'', ''damja'', ''Documents'']) = Some (Dir True)"
  "project_ancestor (2 + 1) = below c_drive [''Users'', ''damja'', ''WebstormProjects'']"
  "project_ancestor (2 + 4) = project_path"
  "fsys (start home_drive) project_path = None"
  by code_simp+

lemma chain_only_facts:
  "''renderer/index.html'' \<in> set files"
  "fsys (start chain_only) project_path = Some (Dir True)"
  "fsys (start chain_only) (parent (joinpath project_path ''renderer/index.html'')) = None"
  by code_simp+

section \<open>When a write to the standard output can fail\<close>




















section \<open>The claims\<close>

subsection \<open>C9: one layout, one root\<close>

text \<open>
  Claim C9. The list \<open>expected_items\<close> hardcoded in \<open>verify_structure\<close> holds exactly the
  entries of the lists \<open>directories\<close> and \<open>files\<close> hardcoded in
  \<open>create_project_structure\<close>, each once, and the path the entry point passes to
  \<open>verify_structure\<close> is the project path that \<open>create_project_structure\<close> builds from
  its base path (both read as Windows paths).
\<close>

theorem layouts_agree:
  "set expected_items = set directories \<union> set files \<and>
   distinct expected_items \<and>
   length expected_items = length directories + length files \<and>
   main_project_path = project_path"
  by code_simp

subsection \<open>C10: what \<open>create_project_structure\<close> hands to its caller\<close>




subsection \<open>C4: every error ends the run with exit code 1\<close>

text \<open>
  Claim C4. The process exits with code 0 exactly when the \<open>try\<close> block ran through.
  When the block raises \<open>PermissionError\<close>, \<open>FileExistsError\<close> or any other exception
  (in the model, \<open>FileNotFoundError\<close>), the exception is caught, its message is printed,
  followed by the failure line, and the exit code is 1; the final state is the state at
  the raise with these lines added, so nothing is retried and nothing else is run.
\<close>

theorem errors_are_terminal:
  "(fst (main w) = 0 \<longleftrightarrow> fst (try_block (print Rule (print Banner w))) = Ok) \<and>
   (try_block (print Rule (print Banner w)) = (Raised (PermissionError p), w1) \<longrightarrow>
      main w = (1, w1\<lparr>stdout := stdout w1 @ [NoPermission base_path, RunAsAdmin, SetupFailed]\<rparr>)) \<and>
   (try_block (print Rule (print Banner w)) = (Raised (FileExistsError p), w1) \<longrightarrow>
      main w = (1, w1\<lparr>stdout := stdout w1 @ [ErrorLine (FileExistsError p), SetupFailed]\<rparr>)) \<and>
   (try_block (print Rule (print Banner w)) = (Raised (FileNotFoundError p), w1) \<longrightarrow>
      main w = (1, w1\<lparr>stdout := stdout w1 @ [UnexpectedError (FileNotFoundError p), SetupFailed]\<rparr>))"
  by (cases "try_block (print Rule (print Banner w))")
    (auto simp: main_def create_project_structure_def except_clauses_def after_create_def print_def
      split: outcome.splits exn.splits prod.splits)

theorem errors_are_terminal_witness:
  "(fst (try_block (print Rule (print Banner (start empty_drive)))) = Ok \<and>
    fst (main (start empty_drive)) = 0) \<and>
   (fst (try_block (print Rule (print Banner (start locked_drive))))
      = Raised (PermissionError (below c_drive [''Users''])) \<and>
    main (start locked_drive) =
      (1, (snd (try_block (print Rule (print Banner (start locked_drive)))))
            \<lparr>stdout := stdout (snd (try_block (print Rule (print Banner (start locked_drive)))))
               @ [NoPermission base_path, RunAsAdmin, SetupFailed]\<rparr>)) \<and>
   (fst (try_block (print Rule (print Banner (start users_is_file))))
      = Raised (FileExistsError (below c_drive [''Users''])) \<and>
    main (start users_is_file) =
      (1, (snd (try_block (print Rule (print Banner (start users_is_file)))))
            \<lparr>stdout := stdout (snd (try_block (print Rule (print Banner (start users_is_file)))))
               @ [ErrorLine (FileExistsError (below c_drive [''Users''])), SetupFailed]\<rparr>)) \<and>
   (fst (try_block (print Rule (print Banner (start no_drive))))
      = Raised (FileNotFoundError c_drive) \<and>
    main (start no_drive) =
      (1, (snd (try_block (print Rule (print Banner (start no_drive)))))
            \<lparr>stdout := stdout (snd (try_block (print Rule (print Banner (start no_drive)))))
               @ [UnexpectedError (FileNotFoundError c_drive), SetupFailed]\<rparr>))"
proof -
  have split: "fst x = r \<Longrightarrow> x = (r, snd x)" for x :: "outcome \<times> world" and r
    by auto
  note ok = run_on_empty_drive
  note perm = split[OF run_on_locked_drive]
  note coll = split[OF run_with_users_file]
  note gone = split[OF run_without_drive]
  from ok errors_are_terminal[of "start empty_drive"]
  have a: "fst (main (start empty_drive)) = 0" by blast
  from perm errors_are_terminal[of "start locked_drive" "below c_drive [''Users'']"
      "snd (try_block (print Rule (print Banner (start locked_drive))))"]
  have b: "main (start locked_drive) =
      (1, (snd (try_block (print Rule (print Banner (start locked_drive)))))
            \<lparr>stdout := stdout (snd (try_block (print Rule (print Banner (start locked_drive)))))
               @ [NoPermission base_path, RunAsAdmin, SetupFailed]\<rparr>)" by blast
  from coll errors_are_terminal[of "start users_is_file" "below c_drive [''Users'']"
      "snd (try_block (print Rule (print Banner (start users_is_file))))"]
  have c: "main (start users_is_file) =
      (1, (snd (try_block (print Rule (print Banner (start users_is_file)))))
            \<lparr>stdout := stdout (snd (try_block (print Rule (print Banner (start users_is_file)))))
               @ [ErrorLine (FileExistsError (below c_drive [''Users''])), SetupFailed]\<rparr>)" by blast
  from gone errors_are_terminal[of "start no_drive" c_drive
      "snd (try_block (print Rule (print Banner (start no_drive))))"]
  have d: "main (start no_drive) =
      (1, (snd (try_block (print Rule (print Banner (start no_drive)))))
            \<lparr>stdout := stdout (snd (try_block (print Rule (print Banner (start no_drive)))))
               @ [UnexpectedError (FileNotFoundError c_drive), SetupFailed]\<rparr>)" by blast
  from ok run_on_locked_drive run_with_users_file run_without_drive a b c d show ?thesis
    by blast
qed

subsection \<open>C8: the result of \<open>verify_structure\<close> does not reach the exit code\<close>

text \<open>
  Claim C8. In the branch the entry point takes when \<open>create_project_structure\<close> returned
  \<open>True\<close>, the boolean returned by \<open>verify_structure\<close> is dropped: also in a state where
  \<open>verify_structure\<close> finds a path missing, the last line printed is the success line
  and the exit code is 0. (\<open>main\<close> enters this branch with the state that
  \<open>create_project_structure\<close> left; the statement holds for whatever state the
  filesystem is in when \<open>verify_structure\<close> runs.)
\<close>

theorem verify_result_ignored:
  "\<not> fst (verify_structure main_project_path w) \<Longrightarrow>
     fst (after_create True w) = 0 \<and> last (stdout (snd (after_create True w))) = SetupComplete"
  by (simp add: after_create_def split: prod.splits)

theorem verify_result_ignored_witness:
  "\<not> fst (verify_structure main_project_path (start empty_drive)) \<and>
   fst (after_create True (start empty_drive)) = 0 \<and>
   last (stdout (snd (after_create True (start empty_drive)))) = SetupComplete"
proof -
  have missing: "\<not> fst (verify_structure main_project_path (start empty_drive))"
    by code_simp
  from missing verify_result_ignored[OF missing] show ?thesis
    by blast
qed


subsection \<open>C3: after a successful run every expected entry is found\<close>

text \<open>
  Claim C3. When \<open>create_project_structure\<close> has returned \<open>True\<close>, \<open>verify_structure\<close>,
  run on the project path in the state it left, finds every entry of \<open>expected_items\<close>:
  it prints the tick line for each, in order, and returns \<open>True\<close>.
\<close>

theorem verify_after_create:
  assumes "fst (create_project_structure w)"
  shows "verify_structure project_path (snd (create_project_structure w)) =
    (True, (snd (create_project_structure w))
       \<lparr>stdout := stdout (snd (create_project_structure w)) @ VerifyHeading # map Tick expected_items\<rparr>)"
proof -
  obtain w' where t: "try_block w = (Ok, w')"
    using assms by (cases "try_block w") (simp add: fst_create)
  then have w': "snd (create_project_structure w) = w'"
    by (simp add: create_project_structure_def)
  from try_block_result[OF t] have post:
    "\<forall>d\<in>set directories. is_dir (fsys w') (joinpath project_path d)"
    "\<forall>f\<in>set files. path_exists (fsys w') (joinpath project_path f)"
    by auto
  have "path_exists (fsys w') (joinpath project_path item)" if "item \<in> set expected_items" for item
  proof -
    from that expected_items_declared have "item \<in> set directories \<or> item \<in> set files" by blast
    with post show ?thesis by (auto simp: is_dir_iff path_exists_def)
  qed
  then have all: "list_all (\<lambda>item. path_exists (fsys w') (joinpath project_path item)) expected_items"
    and lines: "map (\<lambda>item. if path_exists (fsys w') (joinpath project_path item) then Tick item
        else Missing item) expected_items = map Tick expected_items"
    by (simp_all add: list_all_iff)
  show ?thesis
    unfolding w' by (simp add: verify_structure_def verify_items_result print_def all lines)
qed

theorem verify_after_create_witness:
  "fst (create_project_structure (start empty_drive)) \<and>
   verify_structure project_path (snd (create_project_structure (start empty_drive))) =
    (True, (snd (create_project_structure (start empty_drive)))
       \<lparr>stdout := stdout (snd (create_project_structure (start empty_drive)))
          @ VerifyHeading # map Tick expected_items\<rparr>)"
  using create_on_empty_drive verify_after_create[OF create_on_empty_drive] by (rule conjI)

subsection \<open>C6: what \<open>verify_structure\<close> prints and returns\<close>

text \<open>
  Claim C6, as amended. \<open>verify_structure\<close> checks the expected entries in the order of
  the list and prints one line for each, in that order: the tick line when the path
  exists, the "missing" line when it does not. It returns only the boolean, which is
  \<open>True\<close> exactly when every path exists, and it leaves the filesystem as it was.
\<close>

theorem verify_structure_result:
  "verify_structure root w =
     (list_all (\<lambda>item. path_exists (fsys w) (joinpath root item)) expected_items,
      w\<lparr>stdout := stdout w @ VerifyHeading #
           map (\<lambda>item. if path_exists (fsys w) (joinpath root item) then Tick item else Missing item)
             expected_items\<rparr>)"
  by (simp add: verify_structure_def verify_items_result print_def)

text \<open>
  Claim C6 as stated says that the ordered list of per-entry results is part of what
  \<open>verify_structure\<close> returns. It is not: on the empty drive and in the state where
  only \<open>main.js\<close> exists the function returns the same value, although the per-entry
  results, which it prints, differ.
\<close>

theorem verify_returns_only_bool:
  "fst (verify_structure project_path (start empty_drive)) =
     fst (verify_structure project_path only_main_js) \<and>
   new_lines (start empty_drive) (snd (verify_structure project_path (start empty_drive))) \<noteq>
     new_lines only_main_js (snd (verify_structure project_path only_main_js))"
  by code_simp

subsection \<open>C2: files that exist are left alone\<close>




subsection \<open>C1: running the script twice\<close>

text \<open>
  Claim C1, as amended. Running \<open>create_project_structure\<close> a second time, on the
  state the first run left, leaves the filesystem as the first run left it and returns
  what the first run returned; this holds for a first run that failed as well. After
  a first run that went through, the second run calls \<open>touch()\<close> on nothing and prints
  the "already present" line for every declared file; for every declared subdirectory
  it prints the tick line, the line the first run prints for it too: the script does
  not tell a subdirectory it made from one that was there.
\<close>

theorem create_twice:
  "fsys (snd (create_project_structure (snd (create_project_structure w))))
     = fsys (snd (create_project_structure w)) \<and>
   fst (create_project_structure (snd (create_project_structure w)))
     = fst (create_project_structure w) \<and>
   (fst (create_project_structure w) \<longrightarrow>
      new_lines (snd (create_project_structure w))
          (snd (create_project_structure (snd (create_project_structure w))))
        = [CreatingMain project_path, DirsHeading] @ map (\<lambda>d. Tick (d @ ''/'')) directories
          @ [FilesHeading] @ map AlreadyPresent files
          @ [StructureCreated, ProjectPathLine project_path, TreeOverview, NextSteps project_path] \<and>
      new_touches (snd (create_project_structure w))
          (snd (create_project_structure (snd (create_project_structure w)))) = [])"
proof -
  have "fst (create_project_structure w) \<Longrightarrow> ?thesis"
    using create_again[of w] by (simp add: second_run new_lines_def new_touches_def)
  then show ?thesis
    using create_again[of w] by blast
qed

theorem create_twice_witness:
  "fst (create_project_structure (start empty_drive)) \<and>
   fsys (snd (create_project_structure (snd (create_project_structure (start empty_drive)))))
     = fsys (snd (create_project_structure (start empty_drive))) \<and>
   fst (create_project_structure (snd (create_project_structure (start empty_drive)))) \<and>
   new_lines (snd (create_project_structure (start empty_drive)))
       (snd (create_project_structure (snd (create_project_structure (start empty_drive)))))
     = [CreatingMain project_path, DirsHeading] @ map (\<lambda>d. Tick (d @ ''/'')) directories
       @ [FilesHeading] @ map AlreadyPresent files
       @ [StructureCreated, ProjectPathLine project_path, TreeOverview, NextSteps project_path] \<and>
   new_touches (snd (create_project_structure (start empty_drive)))
       (snd (create_project_structure (snd (create_project_structure (start empty_drive))))) = []"
  using create_on_empty_drive create_twice[of "start empty_drive"] by blast

text \<open>
  Claim C1 as stated says that the second run reports every declared item, the
  subdirectories included, as already present rather than created. On the empty drive
  the second run prints for the subdirectory \<open>renderer\<close> the tick line that the first
  run printed when it made the directory, and no "already present" line.
\<close>

theorem directories_not_reported_present:
  "''renderer'' \<in> set directories \<and>
   Tick ''renderer/'' \<in> set (new_lines (start empty_drive)
      (snd (create_project_structure (start empty_drive)))) \<and>
   Tick ''renderer/'' \<in> set (new_lines (snd (create_project_structure (start empty_drive)))
      (snd (create_project_structure (snd (create_project_structure (start empty_drive)))))) \<and>
   AlreadyPresent ''renderer'' \<notin> set (new_lines (snd (create_project_structure (start empty_drive)))
      (snd (create_project_structure (snd (create_project_structure (start empty_drive)))))) \<and>
   AlreadyPresent ''renderer/'' \<notin> set (new_lines (snd (create_project_structure (start empty_drive)))
      (snd (create_project_structure (snd (create_project_structure (start empty_drive))))))"
proof -
  have first: "Tick ''renderer/'' \<in> set (new_lines (start empty_drive)
      (snd (create_project_structure (start empty_drive))))"
    by (simp add: first_run_lines directories_def)
  have second: "new_lines (snd (create_project_structure (start empty_drive)))
      (snd (create_project_structure (snd (create_project_structure (start empty_drive)))))
    = [CreatingMain project_path, DirsHeading] @ map (\<lambda>d. Tick (d @ ''/'')) directories
       @ [FilesHeading] @ map AlreadyPresent files
       @ [StructureCreated, ProjectPathLine project_path, TreeOverview, NextSteps project_path]"
    by (simp add: second_run[OF create_on_empty_drive] new_lines_def)
  show ?thesis
    unfolding second using first by (simp add: directories_def files_def)
qed


subsection \<open>C5: a regular file where a directory is needed\<close>




subsection \<open>C7: missing parent directories are created\<close>

text \<open>
  Claim C7. First part: in a filesystem, let some directory on the way from the drive
  to the project directory exist and be writable, and let the next directory on the
  way (the project directory itself, or one of those above it) not exist; what else
  the drive holds does not matter. Then \<open>create_project_structure\<close> returns \<open>True\<close>,
  and afterwards every directory from that one down to the project directory exists,
  every declared subdirectory exists, and every declared file is an empty file in a
  directory that exists. Second part, on the body of the file loop alone: where the
  project directory is writable and the directory of a declared file does not exist,
  the body makes that directory and then the empty file.
\<close>

theorem missing_parents_are_created:
  "(well_formed (fsys w) \<and> fsys w (project_ancestor k) = Some (Dir True) \<and>
    fsys w (project_ancestor (Suc k)) = None \<longrightarrow>
      fst (create_project_structure w) \<and>
      (\<forall>j. fsys (snd (create_project_structure w)) (project_ancestor (k + j)) = Some (Dir True)) \<and>
      (\<forall>d\<in>set directories.
         fsys (snd (create_project_structure w)) (joinpath project_path d) = Some (Dir True)) \<and>
      (\<forall>f\<in>set files.
         fsys (snd (create_project_structure w)) (parent (joinpath project_path f)) = Some (Dir True) \<and>
         fsys (snd (create_project_structure w)) (joinpath project_path f) = Some (File []))) \<and>
   (well_formed (fsys v) \<and> f \<in> set files \<and> fsys v project_path = Some (Dir True) \<and>
    fsys v (parent (joinpath project_path f)) = None \<longrightarrow>
      fst (create_file project_path f v) = Ok \<and>
      fsys (snd (create_file project_path f v)) (parent (joinpath project_path f)) = Some (Dir True) \<and>
      fsys (snd (create_file project_path f v)) (joinpath project_path f) = Some (File []))"
proof (intro conjI impI)
  assume h: "well_formed (fsys w) \<and> fsys w (project_ancestor k) = Some (Dir True) \<and>
    fsys w (project_ancestor (Suc k)) = None"
  then have base: "fsys w (project_ancestor k) = Some (Dir True)" by simp
  from h missing_ancestor[of w k]
  have free: "\<forall>ds. ds \<noteq> [] \<and> prefix ds (drop k (names project_path))
      \<longrightarrow> fsys w (below (project_ancestor k) ds) = None"
    and inner: "\<forall>x xs. fsys w (below project_path (x # xs)) = None"
    by blast+
  from run_from_ancestor[OF base free inner] obtain w' where t: "try_block w = (Ok, w')"
    and post: "\<forall>j. fsys w' (project_ancestor (k + j)) = Some (Dir True)"
      "\<forall>d\<in>set directories. fsys w' (joinpath project_path d) = Some (Dir True)"
      "\<forall>f\<in>set files. fsys w' (parent (joinpath project_path f)) = Some (Dir True)
         \<and> fsys w' (joinpath project_path f) = Some (File [])"
    by blast
  from t have c: "create_project_structure w = (True, w')"
    by (simp add: create_project_structure_def)
  show "fst (create_project_structure w)"
    by (simp add: c)
  show "\<forall>j. fsys (snd (create_project_structure w)) (project_ancestor (k + j)) = Some (Dir True)"
    using post(1) by (simp add: c)
  show "\<forall>d\<in>set directories.
         fsys (snd (create_project_structure w)) (joinpath project_path d) = Some (Dir True)"
    using post(2) by (simp add: c)
  show "\<forall>f\<in>set files.
         fsys (snd (create_project_structure w)) (parent (joinpath project_path f)) = Some (Dir True) \<and>
         fsys (snd (create_project_structure w)) (joinpath project_path f) = Some (File [])"
    using post(3) by (simp add: c)
next
  assume h: "well_formed (fsys v) \<and> f \<in> set files \<and> fsys v project_path = Some (Dir True) \<and>
    fsys v (parent (joinpath project_path f)) = None"
  then have wf: "well_formed (fsys v)" and f: "f \<in> set files"
    and root: "fsys v project_path = Some (Dir True)"
    and missing: "fsys v (parent (joinpath project_path f)) = None"
    by simp_all
  from create_file_makes_directory[OF wf f root missing] obtain v' where
    "create_file project_path f v = (Ok, v')"
    "fsys v' (parent (joinpath project_path f)) = Some (Dir True)"
    "fsys v' (joinpath project_path f) = Some (File [])"
    by (elim exE conjE)
  then show "fst (create_file project_path f v) = Ok"
    "fsys (snd (create_file project_path f v)) (parent (joinpath project_path f)) = Some (Dir True)"
    "fsys (snd (create_file project_path f v)) (joinpath project_path f) = Some (File [])"
    by simp_all
qed

theorem missing_parents_are_created_witness:
  "fsys (start home_drive) (project_ancestor 2) = Some (Dir True) \<and>
   fsys (start home_drive) (project_ancestor (Suc 2)) = None \<and>
   fsys (start home_drive) (below c_drive [''Users'', ''damja'', ''Documents'']) = Some (Dir True) \<and>
   fsys (start home_drive) project_path = None \<and>
   fst (create_project_structure (start home_drive)) \<and>
   fsys (snd (create_project_structure (start home_drive)))
     (below c_drive [''Users'', ''damja'', ''WebstormProjects'']) = Some (Dir True) \<and>
   fsys (snd (create_project_structure (start home_drive))) project_path = Some (Dir True) \<and>
   fsys (start chain_only) project_path = Some (Dir True) \<and>
   fsys (start chain_only) (parent (joinpath project_path ''renderer/index.html'')) = None \<and>
   fst (create_file project_path ''renderer/index.html'' (start chain_only)) = Ok \<and>
   fsys (snd (create_file project_path ''renderer/index.html'' (start chain_only)))
     (parent (joinpath project_path ''renderer/index.html'')) = Some (Dir True) \<and>
   fsys (snd (create_file project_path ''renderer/index.html'' (start chain_only)))
     (joinpath project_path ''renderer/index.html'') = Some (File [])"
proof -
  have wf1: "well_formed (fsys (start home_drive))"
    by (simp add: start_def well_formed_home_drive)
  have wf2: "well_formed (fsys (start chain_only))"
    by (simp add: start_def well_formed_chain_only)
  note inst = missing_parents_are_created[of "start home_drive" 2 "start chain_only"
      "''renderer/index.html''"]
  from inst wf1 home_drive_facts(1,2)
  have a: "fst (create_project_structure (start home_drive))"
    and b: "\<forall>j. fsys (snd (create_project_structure (start home_drive))) (project_ancestor (2 + j))
        = Some (Dir True)"
    by blast+
  from b[rule_format, of 1] b[rule_format, of 4]
  have c: "fsys (snd (create_project_structure (start home_drive)))
       (below c_drive [''Users'', ''damja'', ''WebstormProjects'']) = Some (Dir True)"
      "fsys (snd (create_project_structure (start home_drive))) project_path = Some (Dir True)"
    by (simp_all only: home_drive_facts)
  from inst wf2 chain_only_facts
  have d: "fst (create_file project_path ''renderer/index.html'' (start chain_only)) = Ok \<and>
      fsys (snd (create_file project_path ''renderer/index.html'' (start chain_only)))
        (parent (joinpath project_path ''renderer/index.html'')) = Some (Dir True) \<and>
      fsys (snd (create_file project_path ''renderer/index.html'' (start chain_only)))
        (joinpath project_path ''renderer/index.html'') = Some (File [])"
    by blast
  from a c d home_drive_facts(1,2,3,6) chain_only_facts(2,3) show ?thesis
    by blast
qed

end
